theory Spec2Isabelle
  imports Complex_Main "HOL-Library.Signed_Division"
begin

section \<open>Vectors and rectangles\<close>

text \<open>
  The tile layer of \<^verbatim>\<open>library/graphics/TileLayer.cc\<close> works on two vector types:
  \<^verbatim>\<open>Vector2i\<close> (pairs of \<^verbatim>\<open>int\<close>) and \<^verbatim>\<open>Vector2f\<close> (pairs of \<^verbatim>\<open>float\<close>). A vector is a
  pair here, \<open>fst\<close> being \<^verbatim>\<open>x\<close> (also called \<^verbatim>\<open>width\<close>) and \<open>snd\<close> being \<^verbatim>\<open>y\<close>
  (\<^verbatim>\<open>height\<close>).

  Integers are mathematical integers: the development is about layers whose coordinates
  stay inside the range of \<^verbatim>\<open>int\<close>, where C++ arithmetic does not overflow. Values of type
  \<^verbatim>\<open>float\<close> are exact rationals: rounding of binary32 is not part of the model. The
  concrete layers evaluated below only use small integers and their halves, quarters and
  eighths, which binary32 represents exactly, or stay far from every rounding threshold.
\<close>

type_synonym Vector2i = "int \<times> int"
type_synonym Vector2f = "rat \<times> rat"

definition vec_add :: "'a::plus \<times> 'a \<Rightarrow> 'a \<times> 'a \<Rightarrow> 'a \<times> 'a" where
  "vec_add a b = (fst a + fst b, snd a + snd b)"

definition vec_sub :: "'a::minus \<times> 'a \<Rightarrow> 'a \<times> 'a \<Rightarrow> 'a \<times> 'a" where
  "vec_sub a b = (fst a - fst b, snd a - snd b)"

definition vec_mul :: "'a::times \<times> 'a \<Rightarrow> 'a \<times> 'a \<Rightarrow> 'a \<times> 'a" where
  "vec_mul a b = (fst a * fst b, snd a * snd b)"

definition toVector2f :: "Vector2i \<Rightarrow> Vector2f" where
  \<comment> \<open>the converting constructor \<^verbatim>\<open>Vector2f(Vector2i)\<close>\<close>
  "toVector2f v = (of_int (fst v), of_int (snd v))"

definition toInt :: "rat \<Rightarrow> int" where
  \<comment> \<open>\<^verbatim>\<open>static_cast<int>(float)\<close> drops the fractional part (rounds toward zero)\<close>
  "toInt q = (if 0 \<le> q then \<lfloor>q\<rfloor> else \<lceil>q\<rceil>)"

definition toVector2i :: "Vector2f \<Rightarrow> Vector2i" where
  \<comment> \<open>the converting constructor \<^verbatim>\<open>Vector2i(Vector2f)\<close>\<close>
  "toVector2i v = (toInt (fst v), toInt (snd v))"

text \<open>
  Modelled from the spec: \<^verbatim>\<open>Rect<T>\<close> is declared in \<^verbatim>\<open>gf/Rect.h\<close>, which is not among the
  sources. The code reads its two members \<^verbatim>\<open>min\<close> and \<^verbatim>\<open>max\<close>
  (\<^verbatim>\<open>rect.min.y\<close>, \<^verbatim>\<open>rect.max.x\<close>) and clamps the visible rectangle to
  \<^verbatim>\<open>fromPositionSize({ 0, 0 }, m_layerSize - 1)\<close>, which the spec reads as the inclusive range
  \<open>[0, layerSize - 1]\<close>: so \<^verbatim>\<open>fromPositionSize(p, s)\<close> has \<^verbatim>\<open>min = p\<close> and \<^verbatim>\<open>max = p + s\<close>.
  Intersection is the axis-aligned intersection of the spec (4.2); two rectangles intersect
  when they overlap on both axes by more than a common border. The four corners are those
  the tessellator of the spec (4.3) names, with the y axis pointing down.
\<close>

record 'a Rect =
  min_pt :: "'a \<times> 'a"
  max_pt :: "'a \<times> 'a"

type_synonym RectI = "int Rect"
type_synonym RectF = "rat Rect"

definition fromPositionSize :: "'a::plus \<times> 'a \<Rightarrow> 'a \<times> 'a \<Rightarrow> 'a Rect" where
  "fromPositionSize p s = \<lparr>min_pt = p, max_pt = vec_add p s\<rparr>"

definition fromCenterSize :: "Vector2f \<Rightarrow> Vector2f \<Rightarrow> RectF" where
  "fromCenterSize c s =
     \<lparr>min_pt = (fst c - fst s / 2, snd c - snd s / 2),
      max_pt = (fst c + fst s / 2, snd c + snd s / 2)\<rparr>"

definition grow :: "RectF \<Rightarrow> rat \<Rightarrow> RectF" where
  "grow r v = \<lparr>min_pt = (fst (min_pt r) - v, snd (min_pt r) - v),
               max_pt = (fst (max_pt r) + v, snd (max_pt r) + v)\<rparr>"

definition getPosition :: "'a Rect \<Rightarrow> 'a \<times> 'a" where
  "getPosition r = min_pt r"

definition getSize :: "'a::minus Rect \<Rightarrow> 'a \<times> 'a" where
  "getSize r = vec_sub (max_pt r) (min_pt r)"

definition getTopLeft :: "'a Rect \<Rightarrow> 'a \<times> 'a" where
  "getTopLeft r = min_pt r"

definition getTopRight :: "'a Rect \<Rightarrow> 'a \<times> 'a" where
  "getTopRight r = (fst (max_pt r), snd (min_pt r))"

definition getBottomLeft :: "'a Rect \<Rightarrow> 'a \<times> 'a" where
  "getBottomLeft r = (fst (min_pt r), snd (max_pt r))"

definition getBottomRight :: "'a Rect \<Rightarrow> 'a \<times> 'a" where
  "getBottomRight r = max_pt r"

definition intersects :: "'a::linorder Rect \<Rightarrow> 'a Rect \<Rightarrow> bool" where
  "intersects r other \<longleftrightarrow>
     fst (min_pt r) < fst (max_pt other) \<and> fst (min_pt other) < fst (max_pt r) \<and>
     snd (min_pt r) < snd (max_pt other) \<and> snd (min_pt other) < snd (max_pt r)"

definition getIntersection :: "'a::linorder Rect \<Rightarrow> 'a Rect \<Rightarrow> 'a Rect" where
  "getIntersection r other =
     \<lparr>min_pt = (max (fst (min_pt r)) (fst (min_pt other)),
                max (snd (min_pt r)) (snd (min_pt other))),
      max_pt = (min (fst (max_pt r)) (fst (max_pt other)),
                min (snd (max_pt r)) (snd (max_pt other)))\<rparr>"

definition intersectsInto :: "'a::linorder Rect \<Rightarrow> 'a Rect \<Rightarrow> 'a Rect \<Rightarrow> bool \<times> 'a Rect" where
  \<comment> \<open>\<^verbatim>\<open>r.intersects(other, result)\<close>: the answer, and \<^verbatim>\<open>result\<close> afterwards, which is
      written only when the rectangles intersect\<close>
  "intersectsInto r other result =
     (if intersects r other then (True, getIntersection r other) else (False, result))"

section \<open>Cells and the grid\<close>

datatype Flip = Horizontally | Vertically | Diagonally

type_synonym Flags = "Flip set"

definition None_flags :: Flags where
  \<comment> \<open>\<^verbatim>\<open>gf::None\<close>: no flag set\<close>
  "None_flags = {}"

definition test :: "Flags \<Rightarrow> Flip \<Rightarrow> bool" where
  "test flags f \<longleftrightarrow> f \<in> flags"

text \<open>
  Modelled from the spec: \<^verbatim>\<open>TileLayer::NoTile\<close> is initialised in \<^verbatim>\<open>gf/TileLayer.h\<close>, which is
  not among the sources; the spec calls it the empty-tile sentinel, and the code asserts
  \<^verbatim>\<open>tile >= 0\<close> for every other tile, so the sentinel is negative.
\<close>

definition NoTile :: int where
  "NoTile = - 1"

record Cell =
  tile :: int
  flip :: Flags

text \<open>
  Modelled from the spec: \<^verbatim>\<open>Array2D<Cell, int>\<close> (\<^verbatim>\<open>gf/Array2D.h\<close>) is not among the
  sources. By the spec (9) it is a dense grid over a flat backing array with row-major
  indexing, explicit width and height, and bounds validation by \<^verbatim>\<open>isValid\<close>.
\<close>

record Array2D =
  extent :: Vector2i
  cells :: "Cell list"

definition Array2D_new :: "Vector2i \<Rightarrow> Array2D" where
  \<comment> \<open>\<^verbatim>\<open>m_tiles(layerSize)\<close>: one cell per position. What a fresh cell holds does not
      matter: the constructor of the layer clears the grid at once.\<close>
  "Array2D_new sz =
     \<lparr>extent = sz, cells = replicate (nat (fst sz * snd sz)) \<lparr>tile = 0, flip = None_flags\<rparr>\<rparr>"

definition isValid :: "Array2D \<Rightarrow> Vector2i \<Rightarrow> bool" where
  "isValid a p \<longleftrightarrow> 0 \<le> fst p \<and> fst p < fst (extent a) \<and> 0 \<le> snd p \<and> snd p < snd (extent a)"

definition toIndex :: "Array2D \<Rightarrow> Vector2i \<Rightarrow> nat" where
  "toIndex a p = nat (fst p + snd p * fst (extent a))"

definition cellAt :: "Array2D \<Rightarrow> Vector2i \<Rightarrow> Cell" where
  \<comment> \<open>\<^verbatim>\<open>m_tiles(position)\<close>, read. Every use below comes after a test of \<open>isValid\<close>,
      which keeps the index inside the backing array of a grid that holds one cell per
      position (\<open>wf_grid\<close>).\<close>
  "cellAt a p = cells a ! toIndex a p"

definition put :: "Array2D \<Rightarrow> Vector2i \<Rightarrow> Cell \<Rightarrow> Array2D" where
  \<comment> \<open>\<^verbatim>\<open>m_tiles(position) = cell\<close>, likewise after a test of \<open>isValid\<close>\<close>
  "put a p c = a\<lparr>cells := (cells a)[toIndex a p := c]\<rparr>"

definition wf_grid :: "Array2D \<Rightarrow> bool" where
  \<comment> \<open>the backing array holds one cell per position\<close>
  "wf_grid a \<longleftrightarrow> 0 \<le> fst (extent a) \<and> 0 \<le> snd (extent a) \<and>
     length (cells a) = nat (fst (extent a) * snd (extent a))"

section \<open>The layer\<close>

datatype TileOrientation = Unknown | Orthogonal | Staggered

text \<open>
  Modelled from the spec: the tileset (\<^verbatim>\<open>gf/Tileset.h\<close>) is an external collaborator; the
  layer uses whether it has a texture, its per-tile pixel size, its origin offset and the
  texture-coordinate rectangle of a tile (spec, 6).
\<close>

record Tileset =
  hasTexture :: bool
  getTileSize :: Vector2i
  getOffset :: Vector2i
  computeTextureCoords :: "int \<Rightarrow> RectF"

record Vertex =
  position :: Vector2f
  texCoords :: Vector2f

text \<open>
  The members of \<^verbatim>\<open>TileLayer\<close> that its functions read. \<^verbatim>\<open>m_mapCellIndex\<close> and
  \<^verbatim>\<open>m_mapCellAxis\<close> are set by the constructors and never read, and are left out; the
  primitive type of \<^verbatim>\<open>m_vertices\<close> is always \<^verbatim>\<open>Triangles\<close>.
\<close>

record TileLayer =
  m_orientation :: TileOrientation
  m_layerSize :: Vector2i
  m_tileSize :: Vector2i
  m_tileset :: Tileset
  m_tiles :: Array2D
  m_rect :: RectI
  m_vertices :: "Vertex list"

datatype error =
  InvalidCell         \<comment> \<open>\<^verbatim>\<open>assert(m_tiles.isValid(...))\<close> fails\<close>
  | NegativeTile      \<comment> \<open>\<^verbatim>\<open>assert(tile >= 0)\<close> fails\<close>
  | NotStaggered      \<comment> \<open>\<^verbatim>\<open>assert(m_orientation == TileOrientation::Staggered)\<close> fails\<close>
  | UndefinedConversion  \<comment> \<open>a \<^verbatim>\<open>float\<close> that is infinite or not a number is converted to \<^verbatim>\<open>int\<close>\<close>

text \<open>
  Modelled from the spec: \<^verbatim>\<open>RectI::empty()\<close>, the designated empty rectangle the cached
  visible rectangle starts from. It has no cell: its minimum lies above its maximum.
\<close>

definition RectI_empty :: RectI where
  "RectI_empty = \<lparr>min_pt = (2147483647, 2147483647), max_pt = (- 2147483648, - 2147483648)\<rparr>"

definition clear :: "TileLayer \<Rightarrow> TileLayer" where
  "clear l = l\<lparr>m_tiles := (m_tiles l)\<lparr>cells :=
       map (\<lambda>cell. cell\<lparr>tile := NoTile, flip := None_flags\<rparr>) (cells (m_tiles l))\<rparr>\<rparr>"

definition TileLayer_new :: "Tileset \<Rightarrow> Vector2i \<Rightarrow> TileOrientation \<Rightarrow> TileLayer" where
  \<comment> \<open>\<^verbatim>\<open>TileLayer(layerSize, orientation)\<close>; the tileset member is default-constructed
      by the class and is a parameter here\<close>
  "TileLayer_new ts layerSize orientation =
     clear \<lparr>m_orientation = orientation, m_layerSize = layerSize, m_tileSize = (0, 0),
            m_tileset = ts, m_tiles = Array2D_new layerSize, m_rect = RectI_empty,
            m_vertices = []\<rparr>"

definition TileLayer_default :: "Tileset \<Rightarrow> TileLayer" where
  \<comment> \<open>\<^verbatim>\<open>TileLayer()\<close>: no cell, orientation \<^verbatim>\<open>Unknown\<close>\<close>
  "TileLayer_default ts =
     \<lparr>m_orientation = Unknown, m_layerSize = (0, 0), m_tileSize = (0, 0), m_tileset = ts,
      m_tiles = \<lparr>extent = (0, 0), cells = []\<rparr>, m_rect = RectI_empty, m_vertices = []\<rparr>"

definition setTileSize :: "Vector2i \<Rightarrow> TileLayer \<Rightarrow> TileLayer" where
  "setTileSize tileSize l = l\<lparr>m_tileSize := tileSize\<rparr>"

definition setTile :: "Vector2i \<Rightarrow> int \<Rightarrow> Flags \<Rightarrow> TileLayer \<Rightarrow> error + TileLayer" where
  "setTile pos t f l =
     (if \<not> isValid (m_tiles l) pos then Inl InvalidCell
      else Inr (l\<lparr>m_tiles := put (m_tiles l) pos \<lparr>tile = t, flip = f\<rparr>\<rparr>))"

definition getTile :: "TileLayer \<Rightarrow> Vector2i \<Rightarrow> error + int" where
  "getTile l pos =
     (if \<not> isValid (m_tiles l) pos then Inl InvalidCell else Inr (tile (cellAt (m_tiles l) pos)))"

definition getFlip :: "TileLayer \<Rightarrow> Vector2i \<Rightarrow> error + Flags" where
  "getFlip l pos =
     (if \<not> isValid (m_tiles l) pos then Inl InvalidCell else Inr (flip (cellAt (m_tiles l) pos)))"

section \<open>The tessellator\<close>

definition cellBox :: "TileLayer \<Rightarrow> Vector2i \<Rightarrow> error + RectF" where
  \<comment> \<open>the world box of a cell: \<^verbatim>\<open>size\<close>, \<^verbatim>\<open>position\<close> and \<^verbatim>\<open>box\<close> of the loop body\<close>
  "cellBox l cell =
     (if m_orientation l = Orthogonal then
        Inr (fromPositionSize
               (toVector2f (vec_add (vec_mul cell (m_tileSize l)) (getOffset (m_tileset l))))
               (toVector2f (m_tileSize l)))
      else if m_orientation l \<noteq> Staggered then Inl NotStaggered
      else
        let size = toVector2f (getTileSize (m_tileset l));
            position = toVector2f (vec_mul cell (m_tileSize l));
            position = (fst position, snd position / 2);
            position = (if snd cell smod 2 = 0 then position
                        else (fst position + of_int (fst (m_tileSize l) sdiv 2), snd position));
            position = vec_add position (toVector2f (getOffset (m_tileset l)))
        in Inr (fromPositionSize position size))"

definition cornerVertices :: "RectF \<Rightarrow> RectF \<Rightarrow> Vertex list" where
  \<comment> \<open>\<^verbatim>\<open>Vertex vertices[4]\<close> after its positions and texture coordinates are assigned\<close>
  "cornerVertices box textureCoords =
     [\<lparr>position = getTopLeft box, texCoords = getTopLeft textureCoords\<rparr>,
      \<lparr>position = getTopRight box, texCoords = getTopRight textureCoords\<rparr>,
      \<lparr>position = getBottomLeft box, texCoords = getBottomLeft textureCoords\<rparr>,
      \<lparr>position = getBottomRight box, texCoords = getBottomRight textureCoords\<rparr>]"

definition swapTexCoords :: "nat \<Rightarrow> nat \<Rightarrow> Vertex list \<Rightarrow> Vertex list" where
  \<comment> \<open>\<^verbatim>\<open>std::swap(vertices[i].texCoords, vertices[j].texCoords)\<close>\<close>
  "swapTexCoords i j vs =
     vs[i := (vs ! i)\<lparr>texCoords := texCoords (vs ! j)\<rparr>,
        j := (vs ! j)\<lparr>texCoords := texCoords (vs ! i)\<rparr>]"

definition applyFlip :: "Flags \<Rightarrow> Vertex list \<Rightarrow> Vertex list" where
  \<comment> \<open>the three \<^verbatim>\<open>if (flip.test(...))\<close> statements, in the order of the source\<close>
  "applyFlip flags vertices =
     (let vertices = (if test flags Diagonally then swapTexCoords 1 2 vertices else vertices);
          vertices = (if test flags Horizontally
                      then swapTexCoords 2 3 (swapTexCoords 0 1 vertices) else vertices);
          vertices = (if test flags Vertically
                      then swapTexCoords 1 3 (swapTexCoords 0 2 vertices) else vertices)
      in vertices)"

definition triangles :: "Vertex list \<Rightarrow> Vertex list" where
  \<comment> \<open>the six \<^verbatim>\<open>array.append\<close> calls: two triangles\<close>
  "triangles vertices =
     [vertices ! 0, vertices ! 1, vertices ! 2, vertices ! 2, vertices ! 1, vertices ! 3]"

definition appendCell :: "TileLayer \<Rightarrow> Vertex list \<Rightarrow> Vector2i \<Rightarrow> error + Vertex list" where
  \<comment> \<open>one run of the body of the inner loop of \<^verbatim>\<open>fillVertexArray\<close>\<close>
  "appendCell l array cell =
     (if \<not> isValid (m_tiles l) cell then Inl InvalidCell
      else
        let t = tile (cellAt (m_tiles l) cell) in
        if t = NoTile then Inr array
        else if \<not> 0 \<le> t then Inl NegativeTile
        else
          case cellBox l cell of
            Inl e \<Rightarrow> Inl e
          | Inr box \<Rightarrow>
              let textureCoords = computeTextureCoords (m_tileset l) t;
                  vertices = cornerVertices box textureCoords;
                  vertices = applyFlip (flip (cellAt (m_tiles l) cell)) vertices
              in Inr (array @ triangles vertices))"

primrec fillCells :: "TileLayer \<Rightarrow> Vector2i list \<Rightarrow> Vertex list \<Rightarrow> error + Vertex list" where
  "fillCells l [] array = Inr array"
| "fillCells l (cell # rest) array =
     (case appendCell l array cell of
        Inl e \<Rightarrow> Inl e
      | Inr array' \<Rightarrow> fillCells l rest array')"

definition cellsOf :: "RectI \<Rightarrow> Vector2i list" where
  \<comment> \<open>the cells the two nested loops visit, in their order: \<^verbatim>\<open>cell.y\<close> from
      \<^verbatim>\<open>rect.min.y\<close> to \<^verbatim>\<open>rect.max.y\<close> included, and for each \<^verbatim>\<open>cell.x\<close> from
      \<^verbatim>\<open>rect.min.x\<close> to \<^verbatim>\<open>rect.max.x\<close> included\<close>
  "cellsOf rect =
     concat (map (\<lambda>y. map (\<lambda>x. (x, y)) [fst (min_pt rect)..fst (max_pt rect)])
                 [snd (min_pt rect)..snd (max_pt rect)])"

definition fillVertexArray :: "TileLayer \<Rightarrow> Vertex list \<Rightarrow> RectI \<Rightarrow> error + Vertex list" where
  \<comment> \<open>\<^verbatim>\<open>array.reserve\<close> changes the capacity of the array only and is left out\<close>
  "fillVertexArray l array rect = fillCells l (cellsOf rect) array"

definition commitGeometry :: "TileLayer \<Rightarrow> error + Vertex list" where
  \<comment> \<open>the vertices handed to the \<^verbatim>\<open>VertexBuffer\<close>\<close>
  "commitGeometry l = fillVertexArray l [] (fromPositionSize (0, 0) (m_layerSize l))"

definition updateGeometry :: "TileLayer \<Rightarrow> error + TileLayer" where
  "updateGeometry l =
     (let l = l\<lparr>m_vertices := []\<rparr> in
      if \<not> hasTexture (m_tileset l) \<or> fst (m_tileSize l) = 0 \<or> snd (m_tileSize l) = 0
      then Inr l
      else
        case fillVertexArray l (m_vertices l) (m_rect l) of
          Inl e \<Rightarrow> Inl e
        | Inr array \<Rightarrow> Inr (l\<lparr>m_vertices := array\<rparr>))"

definition nonEmptyCells :: "TileLayer \<Rightarrow> nat" where
  \<comment> \<open>the number of cells of the grid that hold a tile\<close>
  "nonEmptyCells l = length (filter (\<lambda>cell. tile cell \<noteq> NoTile) (cells (m_tiles l)))"

definition wf_layer :: "TileLayer \<Rightarrow> bool" where
  \<comment> \<open>what the constructor establishes and no member function changes: the grid has the
      size of the layer, and one cell per position\<close>
  "wf_layer l \<longleftrightarrow> extent (m_tiles l) = m_layerSize l \<and> wf_grid (m_tiles l)"

section \<open>Drawing\<close>

record View =
  view_center :: Vector2f
  view_size :: Vector2f

text \<open>
  The render target gives the current view and takes the vertex arrays drawn on it; the
  render states (transform and texture) are not part of the model.
\<close>

record RenderTarget =
  getView :: View
  drawn :: "Vertex list list"

text \<open>
  Modelled from the spec: two things \<^verbatim>\<open>draw\<close> uses are declared outside the sources and
  are parameters of the model. \<open>Sqrt2\<close> is the constant \<^verbatim>\<open>gf::Sqrt2\<close>, the factor the spec
  (4.2) calls \<open>sqrt(2)\<close>; \<open>inverseTransform\<close> is the function
  \<^verbatim>\<open>gf::transform(getInverseTransform(), r)\<close> on rectangles, which belongs to the layer's
  transform collaborator (spec, 6).
\<close>

record Collaborators =
  Sqrt2 :: rat
  inverseTransform :: "RectF \<Rightarrow> RectF"

text \<open>
  Modelled from the spec: the value of a default-constructed \<^verbatim>\<open>RectI\<close>, which is what the
  declaration \<^verbatim>\<open>RectI rect;\<close> of \<^verbatim>\<open>draw\<close> leaves in \<^verbatim>\<open>rect\<close> when nothing is assigned to
  it. The constructor is declared in \<^verbatim>\<open>gf/Rect.h\<close>, which is not among the sources; by the
  spec (4.2), "if there is no intersection, the grid rect is the designated empty
  rectangle", so the value is the one of \<^verbatim>\<open>RectI::empty()\<close>.
\<close>

definition RectI_default :: RectI where
  "RectI_default = RectI_empty"

definition effectiveTileSize :: "TileLayer \<Rightarrow> Vector2i" where
  \<comment> \<open>the local \<^verbatim>\<open>tileSize\<close> of \<^verbatim>\<open>draw\<close>\<close>
  "effectiveTileSize l =
     (if m_orientation l = Staggered then (fst (m_tileSize l), snd (m_tileSize l) sdiv 2)
      else m_tileSize l)"

definition worldView :: "Collaborators \<Rightarrow> View \<Rightarrow> RectF" where
  \<comment> \<open>the rectangle \<^verbatim>\<open>world\<close> of \<^verbatim>\<open>draw\<close>: a square around the center of the view\<close>
  "worldView env view =
     (let s = Sqrt2 env * max (fst (view_size view)) (snd (view_size view))
      in fromCenterSize (view_center view) (s, s))"

definition localView :: "Collaborators \<Rightarrow> View \<Rightarrow> TileLayer \<Rightarrow> RectF" where
  \<comment> \<open>the rectangle \<^verbatim>\<open>local\<close> of \<^verbatim>\<open>draw\<close>: the view in the layer's coordinates, grown\<close>
  "localView env view l =
     (let tileSize = effectiveTileSize l
      in grow (inverseTransform env (worldView env view))
              (of_int (max (fst tileSize) (snd tileSize))))"

definition layerRect :: "TileLayer \<Rightarrow> RectF" where
  \<comment> \<open>the rectangle \<^verbatim>\<open>layer\<close> of \<^verbatim>\<open>draw\<close>\<close>
  "layerRect l =
     fromPositionSize (0, 0) (toVector2f (vec_mul (m_layerSize l) (effectiveTileSize l)))"

definition gridRect :: "Collaborators \<Rightarrow> TileLayer \<Rightarrow> RectF \<Rightarrow> error + RectI" where
  \<comment> \<open>the rectangle \<^verbatim>\<open>rect\<close> of \<^verbatim>\<open>draw\<close>, from \<^verbatim>\<open>local\<close>. Dividing by a tile size of zero
      gives an infinite value or no number, whose conversion to \<^verbatim>\<open>int\<close> is undefined.\<close>
  "gridRect env l local =
     (let tileSize = effectiveTileSize l;
          layer = layerRect l;
          rect = RectI_default
      in
        if intersects local layer then
          let intersection = getIntersection local layer in
          if fst tileSize = 0 \<or> snd tileSize = 0 then Inl UndefinedConversion
          else
            let rect = fromPositionSize
                  (toVector2i (fst (getPosition intersection) / of_int (fst tileSize) + 1 / 2,
                               snd (getPosition intersection) / of_int (snd tileSize) + 1 / 2))
                  (toVector2i (fst (getSize intersection) / of_int (fst tileSize) + 1 / 2,
                               snd (getSize intersection) / of_int (snd tileSize) + 1 / 2))
            in Inr (snd (intersectsInto rect
                   (fromPositionSize (0, 0) (fst (m_layerSize l) - 1, snd (m_layerSize l) - 1))
                   rect))
        else Inr rect)"

definition visibleRect :: "Collaborators \<Rightarrow> View \<Rightarrow> TileLayer \<Rightarrow> error + RectI" where
  "visibleRect env view l = gridRect env l (localView env view l)"

definition draw :: "Collaborators \<Rightarrow> RenderTarget \<Rightarrow> TileLayer \<Rightarrow> error + TileLayer \<times> RenderTarget" where
  "draw env target l =
     (if \<not> hasTexture (m_tileset l) \<or> m_orientation l = Unknown then Inr (l, target)
      else
        case visibleRect env (getView target) l of
          Inl e \<Rightarrow> Inl e
        | Inr rect \<Rightarrow>
            (case (if rect \<noteq> m_rect l then updateGeometry (l\<lparr>m_rect := rect\<rparr>) else Inr l) of
               Inl e \<Rightarrow> Inl e
             | Inr l' \<Rightarrow> Inr (l', target\<lparr>drawn := drawn target @ [m_vertices l']\<rparr>)))"

section \<open>Sequences of calls\<close>

text \<open>
  The operations of the class that change a layer, as values, so that a property can be
  stated for every sequence of calls. \<^verbatim>\<open>getTile\<close>, \<^verbatim>\<open>getFlip\<close>, \<^verbatim>\<open>getLocalBounds\<close> and
  \<^verbatim>\<open>commitGeometry\<close> are \<^verbatim>\<open>const\<close>; \<^verbatim>\<open>setAnchor\<close> only changes the origin of the
  transform collaborator.
\<close>

datatype Call =
  CallSetTileSize Vector2i
  | CallSetTile Vector2i int Flags
  | CallClear
  | CallDraw Collaborators RenderTarget

fun call :: "Call \<Rightarrow> TileLayer \<Rightarrow> error + TileLayer" where
  "call (CallSetTileSize tileSize) l = Inr (setTileSize tileSize l)"
| "call (CallSetTile pos t f) l = setTile pos t f l"
| "call CallClear l = Inr (clear l)"
| "call (CallDraw env target) l =
     (case draw env target l of Inl e \<Rightarrow> Inl e | Inr (l', target') \<Rightarrow> Inr l')"

fun calls :: "Call list \<Rightarrow> TileLayer \<Rightarrow> error + TileLayer" where
  "calls [] l = Inr l"
| "calls (c # cs) l = (case call c l of Inl e \<Rightarrow> Inl e | Inr l' \<Rightarrow> calls cs l')"

fun overwrites :: "Vector2i \<Rightarrow> Call \<Rightarrow> bool" where
  "overwrites p (CallSetTile q t f) = (q = p)"
| "overwrites p CallClear = True"
| "overwrites p c = False"

section \<open>The flip rule as the specification words it\<close>







section \<open>Concrete layers\<close>

text \<open>
  A tileset of four tiles side by side in its texture, and the collaborators of a layer
  that is not transformed: \<open>Sqrt2\<close> is the binary32 number nearest to the square root of
  two, \<open>11863283 / 2^23\<close>.
\<close>

definition demo_tileset :: Tileset where
  "demo_tileset =
     \<lparr>hasTexture = True, getTileSize = (32, 32), getOffset = (0, 0),
      computeTextureCoords = (\<lambda>t. fromPositionSize (of_int t / 4, 0) (1 / 4, 1))\<rparr>"

definition demo_env :: Collaborators where
  "demo_env =
     \<lparr>Sqrt2 = 11863283 / 8388608, inverseTransform = (\<lambda>r. r)\<rparr>"

definition demo_layer :: TileLayer where
  \<comment> \<open>a 4 by 4 orthogonal layer of 32 by 32 tiles after
      \<^verbatim>\<open>setTile({0, 0}, 0, None)\<close> and \<^verbatim>\<open>setTile({1, 0}, 2, Horizontally | Diagonally)\<close>\<close>
  "demo_layer =
     (let l = setTileSize (32, 32) (TileLayer_new demo_tileset (4, 4) Orthogonal)
      in l\<lparr>m_tiles := put (put (m_tiles l) (0, 0) \<lparr>tile = 0, flip = None_flags\<rparr>)
                             (1, 0) \<lparr>tile = 2, flip = {Horizontally, Diagonally}\<rparr>\<rparr>)"



definition demo_single :: TileLayer where
  \<comment> \<open>a layer of one cell, holding tile 0\<close>
  "demo_single =
     (let l = setTileSize (32, 32) (TileLayer_new demo_tileset (1, 1) Orthogonal)
      in l\<lparr>m_tiles := put (m_tiles l) (0, 0) \<lparr>tile = 0, flip = None_flags\<rparr>\<rparr>)"

definition demo_target :: "Vector2f \<Rightarrow> Vector2f \<Rightarrow> RenderTarget" where
  \<comment> \<open>a render target nothing was drawn on, whose view has the given center and size\<close>
  "demo_target c s = \<lparr>getView = \<lparr>view_center = c, view_size = s\<rparr>, drawn = []\<rparr>"

section \<open>Properties of the grid\<close>

lemma toIndex_less:
  assumes "wf_grid a" "isValid a p"
  shows "toIndex a p < length (cells a)"
proof -
  obtain x y where p: "p = (x, y)" by (cases p)
  obtain w h where e: "extent a = (w, h)" by (cases "extent a")
  from assms have b: "0 \<le> x" "x < w" "0 \<le> y" "y < h"
    by (simp_all add: isValid_def p e)
  have "y * w + w \<le> h * w"
  proof -
    have "(y + 1) * w \<le> h * w" using b by (intro mult_right_mono) auto
    then show ?thesis by (simp add: algebra_simps)
  qed
  with b have "x + y * w < w * h" by (simp add: mult.commute)
  moreover have "0 \<le> x + y * w" using b by simp
  ultimately show ?thesis using assms(1) by (simp add: toIndex_def wf_grid_def p e)
qed

lemma toIndex_inj:
  assumes "isValid a p" "isValid a q" "toIndex a p = toIndex a q"
  shows "p = q"
proof -
  obtain x y where p: "p = (x, y)" by (cases p)
  obtain x' y' where q: "q = (x', y')" by (cases q)
  obtain w h where e: "extent a = (w, h)" by (cases "extent a")
  from assms have b: "0 \<le> x" "x < w" "0 \<le> y" "0 \<le> x'" "x' < w" "0 \<le> y'"
    by (simp_all add: isValid_def p q e)
  then have "0 \<le> x + y * w" "0 \<le> x' + y' * w" by simp_all
  with assms(3) have eq: "x + y * w = x' + y' * w"
    by (simp add: toIndex_def p q e)
  have "(x + y * w) mod w = x" "(x' + y' * w) mod w = x'" using b by simp_all
  with eq have x: "x = x'" by simp
  have "(x + y * w) div w = y" "(x' + y' * w) div w = y'" using b by simp_all
  with eq have "y = y'" by simp
  with x show ?thesis by (simp add: p q)
qed

lemma wf_grid_new: "0 \<le> fst sz \<Longrightarrow> 0 \<le> snd sz \<Longrightarrow> wf_grid (Array2D_new sz)"
  by (simp add: wf_grid_def Array2D_new_def)

lemma clear_shape [simp]:
  "extent (m_tiles (clear l)) = extent (m_tiles l)"
  "length (cells (m_tiles (clear l))) = length (cells (m_tiles l))"
  "isValid (m_tiles (clear l)) p = isValid (m_tiles l) p"
  by (simp_all add: clear_def isValid_def)

lemma cellAt_clear:
  assumes "wf_grid (m_tiles l)" "isValid (m_tiles l) p"
  shows "cellAt (m_tiles (clear l)) p = \<lparr>tile = NoTile, flip = None_flags\<rparr>"
proof -
  have "toIndex (m_tiles l) p < length (cells (m_tiles l))"
    using assms by (rule toIndex_less)
  then show ?thesis
    by (simp add: cellAt_def clear_def toIndex_def)
qed

lemma put_shape [simp]:
  "extent (put a p c) = extent a"
  "length (cells (put a p c)) = length (cells a)"
  "isValid (put a p c) q = isValid a q"
  "wf_grid (put a p c) = wf_grid a"
  "toIndex (put a p c) q = toIndex a q"
  by (simp_all add: put_def isValid_def wf_grid_def toIndex_def)

lemma cellAt_put_same:
  "wf_grid a \<Longrightarrow> isValid a p \<Longrightarrow> cellAt (put a p c) p = c"
  using toIndex_less [of a p] by (simp add: cellAt_def put_def toIndex_def)

lemma cellAt_put_other:
  "isValid a p \<Longrightarrow> isValid a q \<Longrightarrow> q \<noteq> p \<Longrightarrow> cellAt (put a p c) q = cellAt a q"
proof -
  assume a: "isValid a p" "isValid a q" "q \<noteq> p"
  then have "toIndex a p \<noteq> toIndex a q" using toIndex_inj [of a p q] by blast
  then show ?thesis by (simp add: cellAt_def put_def toIndex_def)
qed

text \<open>
  Facts about the concrete layers, by evaluation.
\<close>

lemma demo_layer_grid:
  "wf_grid (m_tiles demo_layer)"
  "isValid (m_tiles demo_layer) (0, 0)"
  "isValid (m_tiles demo_layer) (1, 0)"
  "isValid (m_tiles demo_layer) (2, 1)"
  "getTile demo_layer (1, 0) = Inr 2"
  "getFlip demo_layer (1, 0) = Inr {Horizontally, Diagonally}"
  "getTile demo_layer (0, 0) = Inr 0"
  by code_simp+

text \<open>
  Claim C8. After \<^verbatim>\<open>clear()\<close> every cell of the grid reports \<open>NoTile\<close> through
  \<^verbatim>\<open>getTile\<close> and the empty flag set through \<^verbatim>\<open>getFlip\<close>, and so does every cell of a
  layer that was just constructed with a size and an orientation. A cell of the grid is a
  valid position; the grid holds one cell per position, as the constructor makes it.
\<close>

theorem clear_resets_every_cell:
  "(wf_grid (m_tiles l) \<and> isValid (m_tiles l) p \<longrightarrow>
      getTile (clear l) p = Inr NoTile \<and> getFlip (clear l) p = Inr None_flags) \<and>
   (0 \<le> fst sz \<and> 0 \<le> snd sz \<and> isValid (Array2D_new sz) q \<longrightarrow>
      getTile (TileLayer_new ts sz ori) q = Inr NoTile \<and>
      getFlip (TileLayer_new ts sz ori) q = Inr None_flags)"
proof (intro conjI impI)
  assume a: "wf_grid (m_tiles l) \<and> isValid (m_tiles l) p"
  then show "getTile (clear l) p = Inr NoTile" "getFlip (clear l) p = Inr None_flags"
    by (simp_all add: getTile_def getFlip_def cellAt_clear)
next
  let ?l = "\<lparr>m_orientation = ori, m_layerSize = sz, m_tileSize = (0, 0),
            m_tileset = ts, m_tiles = Array2D_new sz, m_rect = RectI_empty,
            m_vertices = []\<rparr>"
  assume a: "0 \<le> fst sz \<and> 0 \<le> snd sz \<and> isValid (Array2D_new sz) q"
  then have "wf_grid (m_tiles ?l)" "isValid (m_tiles ?l) q"
    by (simp_all add: wf_grid_new)
  then have "cellAt (m_tiles (clear ?l)) q = \<lparr>tile = NoTile, flip = None_flags\<rparr>"
    by (rule cellAt_clear)
  with a show "getTile (TileLayer_new ts sz ori) q = Inr NoTile"
    "getFlip (TileLayer_new ts sz ori) q = Inr None_flags"
    by (simp_all add: getTile_def getFlip_def TileLayer_new_def)
qed

theorem clear_resets_every_cell_witness:
  "wf_grid (m_tiles demo_layer) \<and> isValid (m_tiles demo_layer) (1, 0) \<and>
   getTile demo_layer (1, 0) = Inr 2 \<and>
   getTile (clear demo_layer) (1, 0) = Inr NoTile \<and>
   getFlip (clear demo_layer) (1, 0) = Inr None_flags \<and>
   isValid (Array2D_new (4, 4)) (3, 3) \<and>
   getTile (TileLayer_new demo_tileset (4, 4) Staggered) (3, 3) = Inr NoTile \<and>
   getFlip (TileLayer_new demo_tileset (4, 4) Staggered) (3, 3) = Inr None_flags"
proof -
  have v: "isValid (Array2D_new (4, 4)) (3, 3)" by code_simp
  from clear_resets_every_cell [of demo_layer "(1, 0)" "(4, 4)" "(3, 3)" demo_tileset Staggered]
    demo_layer_grid v
  show ?thesis by simp
qed

section \<open>Calls that leave a cell alone\<close>

lemma updateGeometry_frame:
  "updateGeometry l = Inr l' \<Longrightarrow> \<exists>vs. l' = l\<lparr>m_vertices := vs\<rparr>"
  by (auto simp add: updateGeometry_def Let_def split: if_splits sum.splits)

lemma draw_frame:
  assumes "draw env target l = Inr (l', target')"
  shows "\<exists>r vs. l' = l\<lparr>m_rect := r, m_vertices := vs\<rparr>"
proof (cases "\<not> hasTexture (m_tileset l) \<or> m_orientation l = Unknown")
  case True
  with assms have "l' = l" by (simp add: draw_def)
  then have "l' = l\<lparr>m_rect := m_rect l, m_vertices := m_vertices l\<rparr>" by simp
  then show ?thesis by blast
next
  case False
  with assms obtain rect
    where l': "(if rect \<noteq> m_rect l then updateGeometry (l\<lparr>m_rect := rect\<rparr>) else Inr l) = Inr l'"
    by (auto simp add: draw_def split: sum.splits)
  show ?thesis
  proof (cases "rect \<noteq> m_rect l")
    case True
    with l' obtain vs where "l' = l\<lparr>m_rect := rect, m_vertices := vs\<rparr>"
      using updateGeometry_frame [of "l\<lparr>m_rect := rect\<rparr>" l'] by auto
    then show ?thesis by blast
  next
    case False
    with l' have "l' = l\<lparr>m_rect := m_rect l, m_vertices := m_vertices l\<rparr>" by simp
    then show ?thesis by blast
  qed
qed

lemma call_keeps_cell:
  assumes "call c l = Inr l'" "\<not> overwrites p c" "isValid (m_tiles l) p"
  shows "extent (m_tiles l') = extent (m_tiles l) \<and> cellAt (m_tiles l') p = cellAt (m_tiles l) p"
proof (cases c)
  case (CallSetTileSize sz)
  with assms show ?thesis by (auto simp add: setTileSize_def)
next
  case (CallSetTile q t f)
  with assms have "q \<noteq> p" "isValid (m_tiles l) q"
    "l' = l\<lparr>m_tiles := put (m_tiles l) q \<lparr>tile = t, flip = f\<rparr>\<rparr>"
    by (auto simp add: setTile_def split: if_splits)
  with assms(3) show ?thesis by (simp add: cellAt_put_other)
next
  case CallClear
  with assms show ?thesis by simp
next
  case (CallDraw env target)
  with assms obtain target' where "draw env target l = Inr (l', target')"
    by (auto split: sum.splits)
  from draw_frame [OF this] show ?thesis by auto
qed

lemma calls_keep_cell:
  "calls cs l = Inr l' \<Longrightarrow> \<forall>c \<in> set cs. \<not> overwrites p c \<Longrightarrow> isValid (m_tiles l) p \<Longrightarrow>
   extent (m_tiles l') = extent (m_tiles l) \<and> cellAt (m_tiles l') p = cellAt (m_tiles l) p"
proof (induction cs arbitrary: l)
  case Nil
  then show ?case by simp
next
  case (Cons c cs)
  from Cons.prems(1) obtain l1 where c: "call c l = Inr l1" and cs: "calls cs l1 = Inr l'"
    by (auto split: sum.splits)
  from Cons.prems have nc: "\<not> overwrites p c" and ncs: "\<forall>c \<in> set cs. \<not> overwrites p c"
    by simp_all
  from call_keeps_cell [OF c nc Cons.prems(3)]
  have k: "extent (m_tiles l1) = extent (m_tiles l)" "cellAt (m_tiles l1) p = cellAt (m_tiles l) p"
    by simp_all
  then have "isValid (m_tiles l1) p" using Cons.prems(3) by (simp add: isValid_def)
  from Cons.IH [OF cs ncs this] k show ?case by simp
qed

text \<open>
  Claim C7. For every position \<open>p\<close> inside the grid, \<^verbatim>\<open>setTile(p, t, f)\<close> succeeds, and
  afterwards \<^verbatim>\<open>getTile(p)\<close> and \<^verbatim>\<open>getFlip(p)\<close> return exactly \<open>t\<close> and \<open>f\<close>; every other
  position answers as before; and after any further sequence of calls that contains neither
  \<^verbatim>\<open>clear()\<close> nor a \<^verbatim>\<open>setTile\<close> on \<open>p\<close> (and that runs to its end), the two getters still
  return \<open>t\<close> and \<open>f\<close>.
\<close>

theorem setTile_get_roundtrip:
  assumes "wf_grid (m_tiles l)" and "isValid (m_tiles l) p"
  shows "\<exists>l'. setTile p t f l = Inr l' \<and>
           getTile l' p = Inr t \<and> getFlip l' p = Inr f \<and>
           (\<forall>q. q \<noteq> p \<longrightarrow> getTile l' q = getTile l q \<and> getFlip l' q = getFlip l q) \<and>
           (\<forall>cs l''. (\<forall>c \<in> set cs. \<not> overwrites p c) \<and> calls cs l' = Inr l'' \<longrightarrow>
              getTile l'' p = Inr t \<and> getFlip l'' p = Inr f)"
proof -
  let ?l' = "l\<lparr>m_tiles := put (m_tiles l) p \<lparr>tile = t, flip = f\<rparr>\<rparr>"
  have set: "setTile p t f l = Inr ?l'" using assms(2) by (simp add: setTile_def)
  have v: "isValid (m_tiles ?l') p" using assms(2) by simp
  have c: "cellAt (m_tiles ?l') p = \<lparr>tile = t, flip = f\<rparr>"
    using assms by (simp add: cellAt_put_same)
  have get: "getTile ?l' p = Inr t" "getFlip ?l' p = Inr f"
    using v c by (simp_all add: getTile_def getFlip_def)
  have other: "getTile ?l' q = getTile l q \<and> getFlip ?l' q = getFlip l q" if "q \<noteq> p" for q
    using that assms(2) by (simp add: getTile_def getFlip_def cellAt_put_other)
  have later: "getTile l'' p = Inr t \<and> getFlip l'' p = Inr f"
    if "\<forall>c \<in> set cs. \<not> overwrites p c" and "calls cs ?l' = Inr l''" for cs l''
  proof -
    from calls_keep_cell [OF that(2) that(1) v]
    have "extent (m_tiles l'') = extent (m_tiles ?l')"
      "cellAt (m_tiles l'') p = \<lparr>tile = t, flip = f\<rparr>"
      using c by simp_all
    moreover from this v have "isValid (m_tiles l'') p" by (simp add: isValid_def)
    ultimately show ?thesis by (simp add: getTile_def getFlip_def)
  qed
  from set get other later show ?thesis by blast
qed

theorem setTile_get_roundtrip_witness:
  "wf_grid (m_tiles demo_layer) \<and> isValid (m_tiles demo_layer) (2, 1) \<and>
   (\<exists>l' l''. setTile (2, 1) 3 {Vertically} demo_layer = Inr l' \<and>
      getTile l' (2, 1) = Inr 3 \<and> getFlip l' (2, 1) = Inr {Vertically} \<and>
      getTile l' (1, 0) = Inr 2 \<and>
      calls [CallSetTileSize (16, 16), CallSetTile (1, 0) 1 None_flags,
             CallDraw demo_env (demo_target (64, 64) (32, 32))] l' = Inr l'' \<and>
      getTile l'' (2, 1) = Inr 3 \<and> getFlip l'' (2, 1) = Inr {Vertically} \<and>
      getTile l'' (1, 0) = Inr 1)"
proof -
  let ?cs = "[CallSetTileSize (16, 16), CallSetTile (1, 0) 1 None_flags,
              CallDraw demo_env (demo_target (64, 64) (32, 32))]"
  let ?l' = "demo_layer\<lparr>m_tiles := put (m_tiles demo_layer) (2, 1) \<lparr>tile = 3, flip = {Vertically}\<rparr>\<rparr>"
  have s: "setTile (2, 1) 3 {Vertically} demo_layer = Inr ?l'"
    using demo_layer_grid by (simp add: setTile_def)
  have "case calls ?cs ?l' of Inl e \<Rightarrow> False | Inr l'' \<Rightarrow> getTile l'' (1, 0) = Inr 1"
    by code_simp
  then obtain l'' where r: "calls ?cs ?l' = Inr l''" "getTile l'' (1, 0) = Inr 1"
    by (auto split: sum.splits)
  have n: "\<forall>c \<in> set ?cs. \<not> overwrites (2, 1) c" by simp
  from setTile_get_roundtrip [of demo_layer "(2, 1)" 3 "{Vertically}"] demo_layer_grid s
  have g: "getTile ?l' (2, 1) = Inr 3" "getFlip ?l' (2, 1) = Inr {Vertically}"
    "getTile ?l' (1, 0) = getTile demo_layer (1, 0)"
    "\<forall>cs l''. (\<forall>c \<in> set cs. \<not> overwrites (2, 1) c) \<and> calls cs ?l' = Inr l'' \<longrightarrow>
              getTile l'' (2, 1) = Inr 3 \<and> getFlip l'' (2, 1) = Inr {Vertically}"
    by auto
  from g(4) n r(1) have "getTile l'' (2, 1) = Inr 3 \<and> getFlip l'' (2, 1) = Inr {Vertically}"
    by blast
  with s g(1,2,3) r demo_layer_grid show ?thesis by auto
qed

text \<open>
  The hypothesis of the two theorems above holds for every layer the class can reach: the
  constructor gives a grid of the size of the layer with one cell per position, and no
  call changes the size of the grid or the length of its backing array.
\<close>

lemma wf_layer_new:
  "0 \<le> fst sz \<Longrightarrow> 0 \<le> snd sz \<Longrightarrow> wf_layer (TileLayer_new ts sz ori)"
  by (simp add: wf_layer_def TileLayer_new_def wf_grid_def clear_def Array2D_new_def)

lemma call_keeps_wf_layer:
  assumes "call c l = Inr l'" and "wf_layer l"
  shows "wf_layer l'"
proof (cases c)
  case (CallSetTileSize sz)
  with assms show ?thesis by (auto simp add: setTileSize_def wf_layer_def)
next
  case (CallSetTile q t f)
  with assms show ?thesis by (auto simp add: setTile_def wf_layer_def split: if_splits)
next
  case CallClear
  with assms show ?thesis by (auto simp add: wf_layer_def wf_grid_def clear_def)
next
  case (CallDraw env target)
  with assms obtain target' where "draw env target l = Inr (l', target')"
    by (auto split: sum.splits)
  from draw_frame [OF this] assms(2) show ?thesis by (auto simp add: wf_layer_def)
qed

lemma calls_keep_wf_layer:
  "calls cs l = Inr l' \<Longrightarrow> wf_layer l \<Longrightarrow> wf_layer l'"
proof (induction cs arbitrary: l)
  case Nil
  then show ?case by simp
next
  case (Cons c cs)
  from Cons.prems(1) obtain l1 where c: "call c l = Inr l1" and cs: "calls cs l1 = Inr l'"
    by (auto split: sum.splits)
  from call_keeps_wf_layer [OF c Cons.prems(2)] Cons.IH [OF cs] show ?case by blast
qed


section \<open>Properties of the tessellator\<close>






text \<open>
  Over the rectangle that holds one cell the two loops run their body once.
\<close>

lemma fillVertexArray_one_cell [simp]:
  "fillVertexArray l array \<lparr>min_pt = cell, max_pt = cell\<rparr> = appendCell l array cell"
  by (cases "appendCell l array cell") (simp_all add: fillVertexArray_def cellsOf_def)




















section \<open>Properties of drawing\<close>

lemma demo_layer_active:
  "hasTexture (m_tileset demo_layer)"
  "m_orientation demo_layer = Orthogonal"
  "m_layerSize demo_layer = (4, 4)"
  "effectiveTileSize demo_layer = (32, 32)"
  "layerRect demo_layer = \<lparr>min_pt = (0, 0), max_pt = (128, 128)\<rparr>"
  "m_rect demo_layer = RectI_empty"
  by code_simp+

text \<open>
  Claim C6. On a layer whose tileset has no texture, or whose orientation is \<open>Unknown\<close>,
  \<^verbatim>\<open>draw\<close> returns at once and without failing: the layer is unchanged (no visible
  rectangle is computed, the vertex array is neither cleared nor filled) and nothing is
  drawn on the render target, so no vertex is produced.
\<close>

theorem draw_without_texture_or_orientation:
  assumes "\<not> hasTexture (m_tileset l) \<or> m_orientation l = Unknown"
  shows "draw env target l = Inr (l, target)"
  using assms by (simp add: draw_def)

theorem draw_without_texture_or_orientation_witness:
  "m_orientation (TileLayer_default demo_tileset) = Unknown \<and>
   draw demo_env (demo_target (0, 0) (100, 100)) (TileLayer_default demo_tileset) =
     Inr (TileLayer_default demo_tileset, demo_target (0, 0) (100, 100)) \<and>
   \<not> hasTexture (m_tileset (demo_layer\<lparr>m_tileset := demo_tileset\<lparr>hasTexture := False\<rparr>\<rparr>)) \<and>
   draw demo_env (demo_target (64, 64) (100, 100))
        (demo_layer\<lparr>m_tileset := demo_tileset\<lparr>hasTexture := False\<rparr>\<rparr>) =
     Inr (demo_layer\<lparr>m_tileset := demo_tileset\<lparr>hasTexture := False\<rparr>\<rparr>,
          demo_target (64, 64) (100, 100))"
proof -
  have u: "m_orientation (TileLayer_default demo_tileset) = Unknown"
    by (simp add: TileLayer_default_def)
  have t: "\<not> hasTexture (m_tileset (demo_layer\<lparr>m_tileset := demo_tileset\<lparr>hasTexture := False\<rparr>\<rparr>))"
    by simp
  from draw_without_texture_or_orientation
    [of "TileLayer_default demo_tileset" demo_env "demo_target (0, 0) (100, 100)"]
    draw_without_texture_or_orientation
    [of "demo_layer\<lparr>m_tileset := demo_tileset\<lparr>hasTexture := False\<rparr>\<rparr>" demo_env
        "demo_target (64, 64) (100, 100)"]
    u t
  show ?thesis by simp
qed

lemma visibleRect_frame [simp]:
  "visibleRect env view (l\<lparr>m_rect := r, m_vertices := vs\<rparr>) = visibleRect env view l"
  by (simp add: visibleRect_def gridRect_def localView_def layerRect_def effectiveTileSize_def
      Let_def)

lemma draw_active:
  assumes "hasTexture (m_tileset l)" "m_orientation l \<noteq> Unknown"
    and "draw env target l = Inr (l', target')"
  shows "visibleRect env (getView target) l = Inr (m_rect l') \<and>
         target' = target\<lparr>drawn := drawn target @ [m_vertices l']\<rparr>"
proof -
  from assms obtain rect where r: "visibleRect env (getView target) l = Inr rect"
    and u: "(if rect \<noteq> m_rect l then updateGeometry (l\<lparr>m_rect := rect\<rparr>) else Inr l) = Inr l'"
    and t: "target' = target\<lparr>drawn := drawn target @ [m_vertices l']\<rparr>"
    by (auto simp add: draw_def split: sum.splits)
  have "m_rect l' = rect"
  proof (cases "rect \<noteq> m_rect l")
    case True
    with u updateGeometry_frame [of "l\<lparr>m_rect := rect\<rparr>" l'] show ?thesis by auto
  next
    case False
    with u show ?thesis by simp
  qed
  with r t show ?thesis by simp
qed

text \<open>
  Claim C4. When \<^verbatim>\<open>draw\<close> has succeeded and is called again with the same view and no
  other change to the layer, the second call computes the visible rectangle that is
  already cached in \<^verbatim>\<open>m_rect\<close>, so the test \<^verbatim>\<open>rect != m_rect\<close> fails and the vertex array
  is neither cleared nor rebuilt: the call succeeds and leaves the layer, with its cached
  vertices, exactly as it was. (On a layer without texture or orientation both calls do
  nothing.)
\<close>

theorem draw_twice_same_view:
  assumes "draw env target l = Inr (l1, target1)"
    and "getView target2 = getView target"
  shows "(hasTexture (m_tileset l) \<and> m_orientation l \<noteq> Unknown \<longrightarrow>
            visibleRect env (getView target2) l1 = Inr (m_rect l1)) \<and>
         (\<exists>target3. draw env target2 l1 = Inr (l1, target3))"
proof (cases "hasTexture (m_tileset l) \<and> m_orientation l \<noteq> Unknown")
  case False
  then have n: "\<not> hasTexture (m_tileset l) \<or> m_orientation l = Unknown" by blast
  with assms(1) have "l1 = l" by (simp add: draw_def)
  with n have "draw env target2 l1 = Inr (l1, target2)" by (simp add: draw_def)
  with False show ?thesis by blast
next
  case True
  from draw_frame [OF assms(1)] obtain r vs where l1: "l1 = l\<lparr>m_rect := r, m_vertices := vs\<rparr>"
    by blast
  from True draw_active [OF _ _ assms(1)]
  have "visibleRect env (getView target) l = Inr (m_rect l1)" by simp
  then have v: "visibleRect env (getView target2) l1 = Inr (m_rect l1)"
    using assms(2) by (simp add: l1)
  from True have a: "hasTexture (m_tileset l1)" "m_orientation l1 \<noteq> Unknown"
    by (simp_all add: l1)
  from a v have "draw env target2 l1 = Inr (l1, target2\<lparr>drawn := drawn target2 @ [m_vertices l1]\<rparr>)"
    by (simp add: draw_def)
  with True v show ?thesis by blast
qed

theorem draw_twice_same_view_witness:
  "\<exists>l1 target1. draw demo_env (demo_target (64, 64) (96, 96)) demo_layer = Inr (l1, target1) \<and>
      getView target1 = getView (demo_target (64, 64) (96, 96)) \<and>
      length (m_vertices l1) = 12 \<and>
      visibleRect demo_env (getView target1) l1 = Inr (m_rect l1) \<and>
      (\<exists>target2. draw demo_env target1 l1 = Inr (l1, target2))"
proof -
  have "case draw demo_env (demo_target (64, 64) (96, 96)) demo_layer of
          Inl e \<Rightarrow> False
        | Inr (l1, target1) \<Rightarrow> getView target1 = getView (demo_target (64, 64) (96, 96)) \<and>
            length (m_vertices l1) = 12"
    by code_simp
  then obtain l1 target1
    where d: "draw demo_env (demo_target (64, 64) (96, 96)) demo_layer = Inr (l1, target1)"
      and v: "getView target1 = getView (demo_target (64, 64) (96, 96))"
      and n: "length (m_vertices l1) = 12"
    by (auto split: sum.splits)
  from draw_twice_same_view [OF d v] demo_layer_active
  have "visibleRect demo_env (getView target1) l1 = Inr (m_rect l1)"
    "\<exists>target2. draw demo_env target1 l1 = Inr (l1, target2)"
    by simp_all
  with d v n show ?thesis by blast
qed

lemma toInt_nonneg: "0 \<le> q \<Longrightarrow> toInt q = \<lfloor>q\<rfloor>"
  by (simp add: toInt_def)

lemma axis_overlap:
  fixes t n :: int and half g :: rat
  assumes t: "0 < t" and n: "2 \<le> n" and half: "0 \<le> half" and g: "of_int t \<le> g"
  defines "len \<equiv> of_int (n * t)"
  defines "lo \<equiv> len / 2 - half - g"
  defines "hi \<equiv> len / 2 + half + g"
  shows "lo < len" and "0 < hi"
    and "0 \<le> toInt (max lo 0 / of_int t + 1 / 2)"
    and "toInt (max lo 0 / of_int t + 1 / 2) < n - 1"
    and "0 < toInt ((min hi len - max lo 0) / of_int t + 1 / 2)"
proof -
  let ?t = "of_int t :: rat"
  let ?n = "of_int n :: rat"
  have tp: "0 < ?t" using t by simp
  have n2: "2 \<le> ?n" using n by (metis of_int_le_iff of_int_numeral)
  have len: "len = ?n * ?t" by (simp add: len_def)
  have half_len: "?t \<le> len / 2"
  proof -
    have "2 * ?t \<le> ?n * ?t" using n2 tp by (intro mult_right_mono) simp_all
    then show ?thesis by (simp add: len)
  qed
  have lenp: "0 < len" using half_len tp by simp
  show "lo < len" using half g tp lenp by (simp add: lo_def)
  show "0 < hi" using half g tp lenp by (simp add: hi_def)
  have a0: "0 \<le> max lo 0" by simp
  have a1: "max lo 0 \<le> len / 2 - ?t"
    using half g half_len by (simp add: lo_def)
  have q0: "0 \<le> max lo 0 / ?t + 1 / 2" using a0 tp by simp
  then show "0 \<le> toInt (max lo 0 / of_int t + 1 / 2)"
    by (simp add: toInt_nonneg)
  define q where "q = max lo 0 / ?t"
  have "q \<le> (len / 2 - ?t) / ?t"
    unfolding q_def using a1 tp by (intro divide_right_mono) simp_all
  also have "\<dots> = ?n / 2 - 1" using tp by (simp add: len field_simps)
  finally have "q \<le> ?n / 2 - 1" .
  with n2 have "q + 1 / 2 < ?n - 1" by linarith
  then have "q + 1 / 2 < of_int (n - 1)" by simp
  then have "\<lfloor>q + 1 / 2\<rfloor> < n - 1" by (simp only: floor_less_iff)
  then show "toInt (max lo 0 / of_int t + 1 / 2) < n - 1"
    using q0 by (simp add: toInt_nonneg q_def)
  have b1: "len / 2 + ?t \<le> min hi len"
    using half g half_len by (simp add: hi_def)
  have d: "2 * ?t \<le> min hi len - max lo 0" using a1 b1 by linarith
  define r where "r = (min hi len - max lo 0) / ?t"
  have "2 = 2 * ?t / ?t" using tp by simp
  also have "\<dots> \<le> r"
    unfolding r_def using d tp by (intro divide_right_mono) simp_all
  finally have s2: "2 \<le> r" .
  then have s0: "0 \<le> r + 1 / 2" by linarith
  from s2 have "of_int 1 \<le> r + 1 / 2" by simp
  then have "1 \<le> \<lfloor>r + 1 / 2\<rfloor>" by (simp only: le_floor_iff)
  then show "0 < toInt ((min hi len - max lo 0) / of_int t + 1 / 2)"
    using s0 by (simp add: toInt_nonneg r_def)
qed

lemma axis_cover:
  fixes t n :: int and half g :: rat
  assumes t: "0 < t" and n: "1 \<le> n"
  defines "len \<equiv> of_int (n * t)"
  defines "lo \<equiv> len / 2 - half - g"
  defines "hi \<equiv> len / 2 + half + g"
  shows "toInt (max lo 0 / of_int t + 1 / 2) = 0 \<longleftrightarrow> lo < of_int t / 2"
    and "lo < of_int t / 2 \<Longrightarrow> n - 1 \<le> toInt ((min hi len - max lo 0) / of_int t + 1 / 2)"
proof -
  let ?t = "of_int t :: rat"
  let ?n = "of_int n :: rat"
  have tp: "0 < ?t" using t by simp
  have n1: "1 \<le> ?n" using n by (metis of_int_le_iff of_int_1)
  have len: "len = ?n * ?t" by (simp add: len_def)
  define q where "q = max lo 0 / ?t"
  have q0: "0 \<le> q" using tp by (simp add: q_def)
  have "q < 1 / 2 \<longleftrightarrow> max lo 0 < ?t / 2"
    using tp by (simp add: q_def field_simps)
  also have "\<dots> \<longleftrightarrow> lo < ?t / 2" using tp by (simp add: max_def)
  finally have qh: "q < 1 / 2 \<longleftrightarrow> lo < ?t / 2" .
  have "\<lfloor>q + 1 / 2\<rfloor> = 0 \<longleftrightarrow> of_int 0 \<le> q + 1 / 2 \<and> q + 1 / 2 < of_int 0 + 1"
    by (rule floor_eq_iff)
  also have "\<dots> \<longleftrightarrow> q < 1 / 2" using q0 by auto
  finally have "\<lfloor>q + 1 / 2\<rfloor> = 0 \<longleftrightarrow> lo < ?t / 2" using qh by simp
  moreover have "toInt (q + 1 / 2) = \<lfloor>q + 1 / 2\<rfloor>" using q0 by (simp add: toInt_nonneg)
  ultimately show "toInt (max lo 0 / of_int t + 1 / 2) = 0 \<longleftrightarrow> lo < of_int t / 2"
    by (simp add: q_def)
  assume c: "lo < of_int t / 2"
  have m: "max lo 0 < ?t / 2" using c tp by (simp add: max_def)
  have "hi = len - lo" by (simp add: hi_def lo_def)
  then have d: "min hi len - max lo 0 = len - 2 * max lo 0"
    by (simp add: min_def max_def)
  define r where "r = (min hi len - max lo 0) / ?t"
  have "(?n - 1) * ?t \<le> len - 2 * max lo 0" using m by (simp add: len algebra_simps)
  then have "(?n - 1) * ?t / ?t \<le> r"
    unfolding r_def d using tp by (intro divide_right_mono) simp_all
  then have r1: "?n - 1 \<le> r" using tp by simp
  with n1 have r0: "0 \<le> r + 1 / 2" by linarith
  from r1 have "of_int (n - 1) \<le> r + 1 / 2" by simp
  then have "n - 1 \<le> \<lfloor>r + 1 / 2\<rfloor>" by (simp only: le_floor_iff)
  then show "n - 1 \<le> toInt ((min hi len - max lo 0) / of_int t + 1 / 2)"
    using r0 by (simp add: toInt_nonneg r_def)
qed

lemma cellsOf_empty: "cellsOf RectI_empty = []"
  by (simp add: cellsOf_def RectI_empty_def)

lemma gridRect_no_intersection:
  "\<not> intersects local (layerRect l) \<Longrightarrow> gridRect env l local = Inr RectI_default"
  by (simp add: gridRect_def Let_def)

lemma gridRect_clamped:
  assumes ts: "effectiveTileSize l = (tw, th)" and ls: "m_layerSize l = (n, m)"
    and nz: "tw \<noteq> 0" "th \<noteq> 0"
    and i: "intersects local (layerRect l)"
    and ax: "ax = toInt (max (fst (min_pt local)) 0 / of_int tw + 1 / 2)"
    and ay: "ay = toInt (max (snd (min_pt local)) 0 / of_int th + 1 / 2)"
    and sx: "sx = toInt ((min (fst (max_pt local)) (of_int (n * tw)) - max (fst (min_pt local)) 0)
                     / of_int tw + 1 / 2)"
    and sy: "sy = toInt ((min (snd (max_pt local)) (of_int (m * th)) - max (snd (min_pt local)) 0)
                     / of_int th + 1 / 2)"
    and c: "ax < n - 1" "0 < ax + sx" "ay < m - 1" "0 < ay + sy"
  shows "gridRect env l local =
     Inr \<lparr>min_pt = (max ax 0, max ay 0), max_pt = (min (ax + sx) (n - 1), min (ay + sy) (m - 1))\<rparr>"
proof -
  have layer: "layerRect l = \<lparr>min_pt = (0, 0), max_pt = (of_int (n * tw), of_int (m * th))\<rparr>"
    by (simp add: layerRect_def ts ls fromPositionSize_def vec_add_def vec_mul_def toVector2f_def)
  have inter: "getIntersection local (layerRect l) =
      \<lparr>min_pt = (max (fst (min_pt local)) 0, max (snd (min_pt local)) 0),
       max_pt = (min (fst (max_pt local)) (of_int (n * tw)),
                 min (snd (max_pt local)) (of_int (m * th)))\<rparr>"
    by (simp add: getIntersection_def layer)
  have pre: "fromPositionSize
       (toVector2i (fst (getPosition (getIntersection local (layerRect l))) / of_int tw + 1 / 2,
                    snd (getPosition (getIntersection local (layerRect l))) / of_int th + 1 / 2))
       (toVector2i (fst (getSize (getIntersection local (layerRect l))) / of_int tw + 1 / 2,
                    snd (getSize (getIntersection local (layerRect l))) / of_int th + 1 / 2)) =
      \<lparr>min_pt = (ax, ay), max_pt = (ax + sx, ay + sy)\<rparr>"
    by (simp add: inter fromPositionSize_def toVector2i_def getPosition_def getSize_def
        vec_add_def vec_sub_def ax ay sx sy)
  have clamp: "fromPositionSize (0, 0) (fst (m_layerSize l) - 1, snd (m_layerSize l) - 1) =
      \<lparr>min_pt = (0, 0), max_pt = (n - 1, m - 1)\<rparr>"
    by (simp add: fromPositionSize_def vec_add_def ls)
  have "intersects \<lparr>min_pt = (ax, ay), max_pt = (ax + sx, ay + sy)\<rparr>
          \<lparr>min_pt = (0, 0), max_pt = (n - 1, m - 1)\<rparr>"
    using c by (simp add: intersects_def)
  then have "snd (intersectsInto \<lparr>min_pt = (ax, ay), max_pt = (ax + sx, ay + sy)\<rparr>
          \<lparr>min_pt = (0, 0), max_pt = (n - 1, m - 1)\<rparr>
          \<lparr>min_pt = (ax, ay), max_pt = (ax + sx, ay + sy)\<rparr>) =
     \<lparr>min_pt = (max ax 0, max ay 0), max_pt = (min (ax + sx) (n - 1), min (ay + sy) (m - 1))\<rparr>"
    by (simp add: intersectsInto_def getIntersection_def)
  with i nz show ?thesis
    by (simp add: gridRect_def Let_def ts pre clamp)
qed

text \<open>
  Claim C3 does not hold as stated: a view centered on the grid and smaller than the layer
  need not give a rectangle strictly smaller than the layer bounds. On the 4 by 4 layer of
  32 by 32 tiles (128 by 128 units) the view of size 96 by 96 at the center is widened by
  \<open>Sqrt2\<close> and grown by one tile, which covers the layer, and the visible rectangle is the
  whole range \<open>[0, 3]\<close> on both axes.
\<close>

theorem centered_smaller_view_covers_whole_layer:
  "hasTexture (m_tileset demo_layer) \<and> m_orientation demo_layer = Orthogonal \<and>
   layerRect demo_layer = \<lparr>min_pt = (0, 0), max_pt = (128, 128)\<rparr> \<and>
   view_center \<lparr>view_center = (64, 64), view_size = (96, 96)\<rparr> =
     (fst (max_pt (layerRect demo_layer)) / 2, snd (max_pt (layerRect demo_layer)) / 2) \<and>
   fst (view_size \<lparr>view_center = (64, 64), view_size = (96, 96)\<rparr>)
     < fst (max_pt (layerRect demo_layer)) \<and>
   snd (view_size \<lparr>view_center = (64, 64), view_size = (96, 96)\<rparr>)
     < snd (max_pt (layerRect demo_layer)) \<and>
   visibleRect demo_env \<lparr>view_center = (64, 64), view_size = (96, 96)\<rparr> demo_layer =
     Inr (fromPositionSize (0, 0)
            (fst (m_layerSize demo_layer) - 1, snd (m_layerSize demo_layer) - 1)) \<and>
   fromPositionSize (0, 0) (fst (m_layerSize demo_layer) - 1, snd (m_layerSize demo_layer) - 1) =
     \<lparr>min_pt = (0, 0), max_pt = (3, 3)\<rparr>"
  by code_simp

text \<open>
  Claim C3, amended. On a layer with a positive effective tile size and at least two cells
  on each axis, take a view that, brought into the layer's coordinates, is a rectangle
  centered on the grid (with any half extents \<open>hx\<close> and \<open>hy\<close>; on a layer that is not
  transformed this is a view whose center is the center of the layer, and both half
  extents are \<open>Sqrt2 * max(width, height) / 2\<close>). The visible rectangle
  then lies within \<open>[0, layerSize - 1]\<close> on both axes. It is strictly smaller than the full
  layer bounds exactly when the grown local view rectangle starts at least half a tile
  inside the layer on some axis, and its minimum on that axis is then at least 1; a view
  that is merely smaller than the layer can fall short of that and gives the full bounds.
  And whenever the grown local view rectangle does not intersect the layer rectangle, the
  computed rectangle is the empty rectangle, which holds no cell, so that the tessellator
  appends nothing for it. \<^verbatim>\<open>draw\<close> stores the rectangle computed by \<open>visibleRect\<close> in
  \<^verbatim>\<open>m_rect\<close> (lemma \<open>draw_active\<close>).
\<close>

theorem visible_rect_of_centered_view:
  "(0 < fst (effectiveTileSize l) \<and> 0 < snd (effectiveTileSize l) \<and>
    2 \<le> fst (m_layerSize l) \<and> 2 \<le> snd (m_layerSize l) \<and>
    0 \<le> hx \<and> 0 \<le> hy \<and>
    inverseTransform env (worldView env view) =
      \<lparr>min_pt = (fst (max_pt (layerRect l)) / 2 - hx, snd (max_pt (layerRect l)) / 2 - hy),
       max_pt = (fst (max_pt (layerRect l)) / 2 + hx, snd (max_pt (layerRect l)) / 2 + hy)\<rparr>
    \<longrightarrow> (\<exists>rect. visibleRect env view l = Inr rect \<and>
           0 \<le> fst (min_pt rect) \<and> fst (min_pt rect) \<le> fst (max_pt rect) \<and>
           fst (max_pt rect) \<le> fst (m_layerSize l) - 1 \<and>
           0 \<le> snd (min_pt rect) \<and> snd (min_pt rect) \<le> snd (max_pt rect) \<and>
           snd (max_pt rect) \<le> snd (m_layerSize l) - 1 \<and>
           (rect \<noteq> fromPositionSize (0, 0) (fst (m_layerSize l) - 1, snd (m_layerSize l) - 1)
              \<longleftrightarrow>
            of_int (fst (effectiveTileSize l)) / 2 \<le> fst (min_pt (localView env view l)) \<or>
            of_int (snd (effectiveTileSize l)) / 2 \<le> snd (min_pt (localView env view l))) \<and>
           (of_int (fst (effectiveTileSize l)) / 2 \<le> fst (min_pt (localView env view l))
              \<longleftrightarrow> 1 \<le> fst (min_pt rect)) \<and>
           (of_int (snd (effectiveTileSize l)) / 2 \<le> snd (min_pt (localView env view l))
              \<longleftrightarrow> 1 \<le> snd (min_pt rect)))) \<and>
   (inverseTransform env = (\<lambda>r. r) \<and>
    view_center view = (fst (max_pt (layerRect l)) / 2, snd (max_pt (layerRect l)) / 2) \<and>
    hx = Sqrt2 env * max (fst (view_size view)) (snd (view_size view)) / 2 \<and> hy = hx \<longrightarrow>
      inverseTransform env (worldView env view) =
        \<lparr>min_pt = (fst (max_pt (layerRect l)) / 2 - hx, snd (max_pt (layerRect l)) / 2 - hy),
         max_pt = (fst (max_pt (layerRect l)) / 2 + hx, snd (max_pt (layerRect l)) / 2 + hy)\<rparr>) \<and>
   (\<not> intersects (localView env view l) (layerRect l) \<longrightarrow>
      visibleRect env view l = Inr RectI_empty \<and> cellsOf RectI_empty = [] \<and>
      fillVertexArray l array RectI_empty = Inr array)"
proof (intro conjI impI)
  assume "inverseTransform env = (\<lambda>r. r) \<and>
    view_center view = (fst (max_pt (layerRect l)) / 2, snd (max_pt (layerRect l)) / 2) \<and>
    hx = Sqrt2 env * max (fst (view_size view)) (snd (view_size view)) / 2 \<and> hy = hx"
  then show "inverseTransform env (worldView env view) =
        \<lparr>min_pt = (fst (max_pt (layerRect l)) / 2 - hx, snd (max_pt (layerRect l)) / 2 - hy),
         max_pt = (fst (max_pt (layerRect l)) / 2 + hx, snd (max_pt (layerRect l)) / 2 + hy)\<rparr>"
    by (simp add: worldView_def fromCenterSize_def Let_def)
next
  assume "\<not> intersects (localView env view l) (layerRect l)"
  then show "visibleRect env view l = Inr RectI_empty"
    by (simp add: visibleRect_def gridRect_no_intersection RectI_default_def)
next
  show "cellsOf RectI_empty = []" by (rule cellsOf_empty)
next
  show "fillVertexArray l array RectI_empty = Inr array"
    by (simp add: fillVertexArray_def cellsOf_empty)
next
  assume a: "0 < fst (effectiveTileSize l) \<and> 0 < snd (effectiveTileSize l) \<and>
    2 \<le> fst (m_layerSize l) \<and> 2 \<le> snd (m_layerSize l) \<and>
    0 \<le> hx \<and> 0 \<le> hy \<and>
    inverseTransform env (worldView env view) =
      \<lparr>min_pt = (fst (max_pt (layerRect l)) / 2 - hx, snd (max_pt (layerRect l)) / 2 - hy),
       max_pt = (fst (max_pt (layerRect l)) / 2 + hx, snd (max_pt (layerRect l)) / 2 + hy)\<rparr>"
  obtain tw th where ts: "effectiveTileSize l = (tw, th)" by (cases "effectiveTileSize l")
  obtain n m where ls: "m_layerSize l = (n, m)" by (cases "m_layerSize l")
  define g :: rat where "g = of_int (max tw th)"
  from a have tp: "0 < tw" "0 < th" and n2: "2 \<le> n" "2 \<le> m" by (simp_all add: ts ls)
  from n2 have n1: "1 \<le> n" "1 \<le> m" by simp_all
  from a have h0: "0 \<le> hx" "0 \<le> hy" by blast+
  have gx: "of_int tw \<le> g" and gy: "of_int th \<le> g" by (simp_all add: g_def)
  let ?local = "localView env view l"
  have layer: "layerRect l = \<lparr>min_pt = (0, 0), max_pt = (of_int (n * tw), of_int (m * th))\<rparr>"
    by (simp add: layerRect_def ts ls fromPositionSize_def vec_add_def vec_mul_def toVector2f_def)
  from a have "inverseTransform env (worldView env view) =
      \<lparr>min_pt = (fst (max_pt (layerRect l)) / 2 - hx, snd (max_pt (layerRect l)) / 2 - hy),
       max_pt = (fst (max_pt (layerRect l)) / 2 + hx, snd (max_pt (layerRect l)) / 2 + hy)\<rparr>"
    by blast
  then have loc: "?local =
     \<lparr>min_pt = (of_int (n * tw) / 2 - hx - g, of_int (m * th) / 2 - hy - g),
      max_pt = (of_int (n * tw) / 2 + hx + g, of_int (m * th) / 2 + hy + g)\<rparr>"
    by (simp add: localView_def Let_def ts grow_def layer g_def)
  note x = axis_overlap [OF tp(1) n2(1) h0(1) gx]
  note y = axis_overlap [OF tp(2) n2(2) h0(2) gy]
  note cx = axis_cover [OF tp(1) n1(1), of hx g]
  note cy = axis_cover [OF tp(2) n1(2), of hy g]
  have i: "intersects ?local (layerRect l)"
    using x(1,2) y(1,2) by (simp add: intersects_def loc layer)
  define ax where "ax = toInt (max (fst (min_pt ?local)) 0 / of_int tw + 1 / 2)"
  define ay where "ay = toInt (max (snd (min_pt ?local)) 0 / of_int th + 1 / 2)"
  define sx where "sx = toInt ((min (fst (max_pt ?local)) (of_int (n * tw))
                     - max (fst (min_pt ?local)) 0) / of_int tw + 1 / 2)"
  define sy where "sy = toInt ((min (snd (max_pt ?local)) (of_int (m * th))
                     - max (snd (min_pt ?local)) 0) / of_int th + 1 / 2)"
  have bx: "0 \<le> ax" "ax < n - 1" "0 < sx"
    using x(3,4,5) by (simp_all add: ax_def sx_def loc)
  have by': "0 \<le> ay" "ay < m - 1" "0 < sy"
    using y(3,4,5) by (simp_all add: ay_def sy_def loc)
  have zx: "ax = 0 \<longleftrightarrow> fst (min_pt ?local) < of_int tw / 2"
    using cx(1) by (simp add: ax_def loc)
  have zy: "ay = 0 \<longleftrightarrow> snd (min_pt ?local) < of_int th / 2"
    using cy(1) by (simp add: ay_def loc)
  have wx: "n - 1 \<le> sx" if "fst (min_pt ?local) < of_int tw / 2"
    using cx(2) that by (simp add: sx_def loc)
  have wy: "m - 1 \<le> sy" if "snd (min_pt ?local) < of_int th / 2"
    using cy(2) that by (simp add: sy_def loc)
  let ?rect = "\<lparr>min_pt = (max ax 0, max ay 0),
                max_pt = (min (ax + sx) (n - 1), min (ay + sy) (m - 1))\<rparr>"
  have "gridRect env l ?local = Inr ?rect"
    using tp bx by'
    by (intro gridRect_clamped [OF ts ls _ _ i ax_def ay_def sx_def sy_def]) simp_all
  then have v: "visibleRect env view l = Inr ?rect"
    by (simp add: visibleRect_def)
  have full: "fromPositionSize (0, 0) (fst (m_layerSize l) - 1, snd (m_layerSize l) - 1) =
      \<lparr>min_pt = (0, 0), max_pt = (n - 1, m - 1)\<rparr>"
    by (simp add: fromPositionSize_def vec_add_def ls)
  have inside: "0 \<le> max ax 0" "max ax 0 \<le> min (ax + sx) (n - 1)" "min (ax + sx) (n - 1) \<le> n - 1"
    "0 \<le> max ay 0" "max ay 0 \<le> min (ay + sy) (m - 1)" "min (ay + sy) (m - 1) \<le> m - 1"
    using bx by' by simp_all
  have mx: "of_int tw / 2 \<le> fst (min_pt ?local) \<longleftrightarrow> 1 \<le> max ax 0"
    using zx bx(1) by auto
  have my: "of_int th / 2 \<le> snd (min_pt ?local) \<longleftrightarrow> 1 \<le> max ay 0"
    using zy by'(1) by auto
  have eq: "?rect = \<lparr>min_pt = (0, 0), max_pt = (n - 1, m - 1)\<rparr> \<longleftrightarrow>
      fst (min_pt ?local) < of_int tw / 2 \<and> snd (min_pt ?local) < of_int th / 2"
  proof
    assume "?rect = \<lparr>min_pt = (0, 0), max_pt = (n - 1, m - 1)\<rparr>"
    then have "max ax 0 = 0" "max ay 0 = 0" by simp_all
    with bx(1) by'(1) have "ax = 0" "ay = 0" by simp_all
    with zx zy show "fst (min_pt ?local) < of_int tw / 2 \<and> snd (min_pt ?local) < of_int th / 2"
      by simp
  next
    assume c: "fst (min_pt ?local) < of_int tw / 2 \<and> snd (min_pt ?local) < of_int th / 2"
    with zx zy have "ax = 0" "ay = 0" by simp_all
    moreover from c wx wy have "n - 1 \<le> sx" "m - 1 \<le> sy" by simp_all
    ultimately show "?rect = \<lparr>min_pt = (0, 0), max_pt = (n - 1, m - 1)\<rparr>" by simp
  qed
  have ne: "?rect \<noteq> fromPositionSize (0, 0) (fst (m_layerSize l) - 1, snd (m_layerSize l) - 1)
      \<longleftrightarrow> of_int (fst (effectiveTileSize l)) / 2 \<le> fst (min_pt ?local) \<or>
           of_int (snd (effectiveTileSize l)) / 2 \<le> snd (min_pt ?local)"
    unfolding full using eq by (auto simp add: ts)
  show "\<exists>rect. visibleRect env view l = Inr rect \<and>
           0 \<le> fst (min_pt rect) \<and> fst (min_pt rect) \<le> fst (max_pt rect) \<and>
           fst (max_pt rect) \<le> fst (m_layerSize l) - 1 \<and>
           0 \<le> snd (min_pt rect) \<and> snd (min_pt rect) \<le> snd (max_pt rect) \<and>
           snd (max_pt rect) \<le> snd (m_layerSize l) - 1 \<and>
           (rect \<noteq> fromPositionSize (0, 0) (fst (m_layerSize l) - 1, snd (m_layerSize l) - 1)
              \<longleftrightarrow>
            of_int (fst (effectiveTileSize l)) / 2 \<le> fst (min_pt (localView env view l)) \<or>
            of_int (snd (effectiveTileSize l)) / 2 \<le> snd (min_pt (localView env view l))) \<and>
           (of_int (fst (effectiveTileSize l)) / 2 \<le> fst (min_pt (localView env view l))
              \<longleftrightarrow> 1 \<le> fst (min_pt rect)) \<and>
           (of_int (snd (effectiveTileSize l)) / 2 \<le> snd (min_pt (localView env view l))
              \<longleftrightarrow> 1 \<le> snd (min_pt rect))"
  proof (rule exI [of _ ?rect], intro conjI)
    show "visibleRect env view l = Inr ?rect" by (rule v)
    show "?rect \<noteq> fromPositionSize (0, 0) (fst (m_layerSize l) - 1, snd (m_layerSize l) - 1)
      \<longleftrightarrow> of_int (fst (effectiveTileSize l)) / 2 \<le> fst (min_pt ?local) \<or>
           of_int (snd (effectiveTileSize l)) / 2 \<le> snd (min_pt ?local)"
      by (rule ne)
    show "of_int (fst (effectiveTileSize l)) / 2 \<le> fst (min_pt ?local)
              \<longleftrightarrow> 1 \<le> fst (min_pt ?rect)"
      using mx by (simp add: ts)
    show "of_int (snd (effectiveTileSize l)) / 2 \<le> snd (min_pt ?local)
              \<longleftrightarrow> 1 \<le> snd (min_pt ?rect)"
      using my by (simp add: ts)
  qed (use inside in \<open>simp_all add: ls\<close>)
qed

lemma demo_layer_views:
  "inverseTransform demo_env (worldView demo_env \<lparr>view_center = (64, 64), view_size = (2, 2)\<rparr>) =
     \<lparr>min_pt = (128 / 2 - 11863283 / 8388608, 128 / 2 - 11863283 / 8388608),
      max_pt = (128 / 2 + 11863283 / 8388608, 128 / 2 + 11863283 / 8388608)\<rparr>"
  "inverseTransform demo_env (worldView demo_env \<lparr>view_center = (64, 64), view_size = (96, 96)\<rparr>) =
     \<lparr>min_pt = (128 / 2 - 35589849 / 524288, 128 / 2 - 35589849 / 524288),
      max_pt = (128 / 2 + 35589849 / 524288, 128 / 2 + 35589849 / 524288)\<rparr>"
  by (simp_all add: demo_env_def worldView_def fromCenterSize_def)

theorem visible_rect_of_centered_view_witness:
  "effectiveTileSize demo_layer = (32, 32) \<and> m_layerSize demo_layer = (4, 4) \<and>
   layerRect demo_layer = \<lparr>min_pt = (0, 0), max_pt = (128, 128)\<rparr> \<and>
   inverseTransform demo_env (worldView demo_env \<lparr>view_center = (64, 64), view_size = (2, 2)\<rparr>) =
     \<lparr>min_pt = (128 / 2 - 11863283 / 8388608, 128 / 2 - 11863283 / 8388608),
      max_pt = (128 / 2 + 11863283 / 8388608, 128 / 2 + 11863283 / 8388608)\<rparr> \<and>
   32 / 2 \<le> fst (min_pt (localView demo_env \<lparr>view_center = (64, 64), view_size = (2, 2)\<rparr>
                              demo_layer)) \<and>
   visibleRect demo_env \<lparr>view_center = (64, 64), view_size = (2, 2)\<rparr> demo_layer =
     Inr \<lparr>min_pt = (1, 1), max_pt = (3, 3)\<rparr> \<and>
   inverseTransform demo_env (worldView demo_env \<lparr>view_center = (64, 64), view_size = (96, 96)\<rparr>) =
     \<lparr>min_pt = (128 / 2 - 35589849 / 524288, 128 / 2 - 35589849 / 524288),
      max_pt = (128 / 2 + 35589849 / 524288, 128 / 2 + 35589849 / 524288)\<rparr> \<and>
   fst (min_pt (localView demo_env \<lparr>view_center = (64, 64), view_size = (96, 96)\<rparr> demo_layer))
     < 32 / 2 \<and>
   snd (min_pt (localView demo_env \<lparr>view_center = (64, 64), view_size = (96, 96)\<rparr> demo_layer))
     < 32 / 2 \<and>
   visibleRect demo_env \<lparr>view_center = (64, 64), view_size = (96, 96)\<rparr> demo_layer =
     Inr \<lparr>min_pt = (0, 0), max_pt = (3, 3)\<rparr> \<and>
   \<not> intersects (localView demo_env \<lparr>view_center = (300, 64), view_size = (2, 2)\<rparr> demo_layer)
        (layerRect demo_layer) \<and>
   visibleRect demo_env \<lparr>view_center = (300, 64), view_size = (2, 2)\<rparr> demo_layer =
     Inr RectI_empty \<and>
   fillVertexArray demo_layer [] RectI_empty = Inr []"
proof -
  have v: "visibleRect demo_env \<lparr>view_center = (64, 64), view_size = (2, 2)\<rparr> demo_layer =
     Inr \<lparr>min_pt = (1, 1), max_pt = (3, 3)\<rparr>"
    "visibleRect demo_env \<lparr>view_center = (64, 64), view_size = (96, 96)\<rparr> demo_layer =
     Inr \<lparr>min_pt = (0, 0), max_pt = (3, 3)\<rparr>"
    by code_simp+
  have m: "32 / 2 \<le> fst (min_pt (localView demo_env \<lparr>view_center = (64, 64), view_size = (2, 2)\<rparr>
                              demo_layer))"
    "fst (min_pt (localView demo_env \<lparr>view_center = (64, 64), view_size = (96, 96)\<rparr> demo_layer))
     < 32 / 2"
    "snd (min_pt (localView demo_env \<lparr>view_center = (64, 64), view_size = (96, 96)\<rparr> demo_layer))
     < 32 / 2"
    by code_simp+
  have n: "\<not> intersects (localView demo_env \<lparr>view_center = (300, 64), view_size = (2, 2)\<rparr> demo_layer)
        (layerRect demo_layer)"
    by code_simp
  from visible_rect_of_centered_view
    [of demo_layer "11863283 / 8388608" "11863283 / 8388608" demo_env
        "\<lparr>view_center = (64, 64), view_size = (2, 2)\<rparr>" "[]"]
    visible_rect_of_centered_view
    [of demo_layer "35589849 / 524288" "35589849 / 524288" demo_env
        "\<lparr>view_center = (64, 64), view_size = (96, 96)\<rparr>" "[]"]
    visible_rect_of_centered_view
    [of demo_layer 0 0 demo_env "\<lparr>view_center = (300, 64), view_size = (2, 2)\<rparr>" "[]"]
  show ?thesis
    using demo_layer_views v m n by (simp add: demo_layer_active)
qed

lemma beside_layer_draw_result:
  "case draw demo_env (demo_target (150, 64) (2, 2)) demo_layer of
     Inl e \<Rightarrow> e = InvalidCell | Inr r \<Rightarrow> False"
  by code_simp

text \<open>
  Claim C10 fails on the code: the in-bounds assertion of the tessellation loop can fire on
  the draw path. The second \<^verbatim>\<open>intersects\<close> call of \<^verbatim>\<open>draw\<close> leaves \<^verbatim>\<open>rect\<close> as it is when
  \<^verbatim>\<open>rect\<close> does not intersect \<open>[0, layerSize - 1]\<close>, and its result is not looked at. With a
  small view just right of the 4 by 4 layer, the grown view still overlaps the last half
  tile of the layer, the rounded rectangle is column 4, rows 1 to 3, which is outside the
  clamping range and therefore not clamped, and \<^verbatim>\<open>fillVertexArray\<close> reads cell \<open>(4, 1)\<close>.
\<close>

theorem draw_beside_layer_reads_out_of_bounds:
  "visibleRect demo_env (getView (demo_target (150, 64) (2, 2))) demo_layer =
     Inr \<lparr>min_pt = (4, 1), max_pt = (4, 3)\<rparr> \<and>
   \<not> isValid (m_tiles demo_layer) (4, 1) \<and>
   draw demo_env (demo_target (150, 64) (2, 2)) demo_layer = Inl InvalidCell"
proof -
  have "visibleRect demo_env (getView (demo_target (150, 64) (2, 2))) demo_layer =
     Inr \<lparr>min_pt = (4, 1), max_pt = (4, 3)\<rparr>" by code_simp
  moreover have "\<not> isValid (m_tiles demo_layer) (4, 1)" by code_simp
  moreover have "draw demo_env (demo_target (150, 64) (2, 2)) demo_layer = Inl InvalidCell"
    using beside_layer_draw_result
    by (cases "draw demo_env (demo_target (150, 64) (2, 2)) demo_layer") simp_all
  ultimately show ?thesis by simp
qed

theorem draw_beside_layer_reads_out_of_bounds_witness:
  "hasTexture (m_tileset demo_layer) \<and> m_orientation demo_layer \<noteq> Unknown \<and>
   m_rect demo_layer = RectI_empty \<and>
   (\<exists>e. draw demo_env (demo_target (150, 64) (2, 2)) demo_layer = Inl e)"
  using draw_beside_layer_reads_out_of_bounds demo_layer_active by simp

section \<open>Properties of the geometry snapshot\<close>

text \<open>
  The cells the loops visit, and what the tessellator appends for them. Over the rectangle
  \<open>[0, layerSize - 1]\<close> the loops read the backing array from its first cell to its last,
  and the result has six vertices for each cell that holds a tile; over the rectangle
  \<^verbatim>\<open>commitGeometry\<close> builds they leave the grid.
\<close>

lemma mem_cellsOf:
  "(x, y) \<in> set (cellsOf r) \<longleftrightarrow>
     fst (min_pt r) \<le> x \<and> x \<le> fst (max_pt r) \<and> snd (min_pt r) \<le> y \<and> y \<le> snd (max_pt r)"
  by (auto simp add: cellsOf_def image_iff)

lemma appendCell_invalid:
  "\<not> isValid (m_tiles l) c \<Longrightarrow> appendCell l array c = Inl InvalidCell"
  by (simp add: appendCell_def)

lemma fillCells_fails:
  "c \<in> set cs \<Longrightarrow> \<forall>array. \<exists>e. appendCell l array c = Inl e \<Longrightarrow> \<exists>e. fillCells l cs array = Inl e"
proof (induction cs arbitrary: array)
  case Nil
  then show ?case by simp
next
  case (Cons d cs)
  show ?case
  proof (cases "appendCell l array d")
    case (Inl e)
    then show ?thesis by simp
  next
    case (Inr array')
    from Cons.prems(2) obtain e where "appendCell l array c = Inl e" by blast
    with Inr have "c \<noteq> d" by auto
    with Cons.prems(1) have "c \<in> set cs" by simp
    from Cons.IH [OF this Cons.prems(2)] Inr show ?thesis by simp
  qed
qed

lemma commitGeometry_fails:
  assumes "wf_layer l" and "0 \<le> fst (m_layerSize l)" and "0 \<le> snd (m_layerSize l)"
  shows "\<exists>e. commitGeometry l = Inl e"
proof -
  obtain n m where ls: "m_layerSize l = (n, m)" by (cases "m_layerSize l")
  from assms have "\<not> isValid (m_tiles l) (n, 0)"
    by (simp add: isValid_def wf_layer_def ls)
  then have a: "\<forall>array. \<exists>e. appendCell l array (n, 0) = Inl e"
    by (simp add: appendCell_invalid)
  from assms have "(n, 0) \<in> set (cellsOf (fromPositionSize (0, 0) (m_layerSize l)))"
    by (simp add: mem_cellsOf fromPositionSize_def vec_add_def ls)
  from fillCells_fails [OF this a] show ?thesis
    by (simp add: commitGeometry_def fillVertexArray_def)
qed

lemma cellBox_total: "m_orientation l \<noteq> Unknown \<Longrightarrow> \<exists>box. cellBox l c = Inr box"
  by (cases "m_orientation l") (simp_all add: cellBox_def Let_def)

lemma appendCell_length:
  assumes "isValid (m_tiles l) c" and "m_orientation l \<noteq> Unknown"
    and "tile (cellAt (m_tiles l) c) = NoTile \<or> 0 \<le> tile (cellAt (m_tiles l) c)"
  shows "\<exists>vs. appendCell l array c = Inr vs \<and>
           length vs = length array + (if tile (cellAt (m_tiles l) c) \<noteq> NoTile then 6 else 0)"
proof -
  from cellBox_total [OF assms(2)] obtain box where "cellBox l c = Inr box" by blast
  with assms show ?thesis
    by (auto simp add: appendCell_def Let_def triangles_def)
qed

lemma fillCells_count:
  assumes "m_orientation l \<noteq> Unknown"
    and "\<forall>c \<in> set cs. isValid (m_tiles l) c \<and>
           (tile (cellAt (m_tiles l) c) = NoTile \<or> 0 \<le> tile (cellAt (m_tiles l) c))"
  shows "\<exists>vs. fillCells l cs array = Inr vs \<and>
           length vs = length array +
             6 * length (filter (\<lambda>c. tile c \<noteq> NoTile) (map (cellAt (m_tiles l)) cs))"
  using assms(2)
proof (induction cs arbitrary: array)
  case Nil
  then show ?case by simp
next
  case (Cons c cs)
  from Cons.prems have c: "isValid (m_tiles l) c"
    "tile (cellAt (m_tiles l) c) = NoTile \<or> 0 \<le> tile (cellAt (m_tiles l) c)"
    and cs: "\<forall>c \<in> set cs. isValid (m_tiles l) c \<and>
           (tile (cellAt (m_tiles l) c) = NoTile \<or> 0 \<le> tile (cellAt (m_tiles l) c))"
    by simp_all
  from appendCell_length [OF c(1) assms(1) c(2), of array] obtain vs
    where vs: "appendCell l array c = Inr vs"
      "length vs = length array + (if tile (cellAt (m_tiles l) c) \<noteq> NoTile then 6 else 0)"
    by blast
  from Cons.IH [OF cs, of vs] vs show ?case by auto
qed

lemma row_cells:
  assumes "length cs = nat (n * m)" and "0 \<le> y" and "y < m" and "0 \<le> n"
  shows "map (\<lambda>x. cs ! nat (x + y * n)) [0..n - 1] = take (nat n) (drop (nat (y * n)) cs)"
proof (rule nth_equalityI)
  have "y * n + n \<le> m * n"
  proof -
    have "(y + 1) * n \<le> m * n" using assms by (intro mult_right_mono) simp_all
    then show ?thesis by (simp add: algebra_simps)
  qed
  then have le: "nat (y * n) + nat n \<le> length cs"
    using assms by (simp add: nat_add_distrib [symmetric] mult.commute)
  then show len: "length (map (\<lambda>x. cs ! nat (x + y * n)) [0..n - 1]) =
      length (take (nat n) (drop (nat (y * n)) cs))"
    using assms by simp
  fix i assume "i < length (map (\<lambda>x. cs ! nat (x + y * n)) [0..n - 1])"
  then have i: "i < nat n" by simp
  then have "[0..n - 1] ! i = int i" by simp
  moreover have "nat (int i + y * n) = nat (y * n) + i"
    using assms by (simp add: nat_add_distrib)
  ultimately show "map (\<lambda>x. cs ! nat (x + y * n)) [0..n - 1] ! i =
      take (nat n) (drop (nat (y * n)) cs) ! i"
    using i le by simp
qed

lemma rows_cells:
  assumes "length cs = nat (n * m)" and "0 \<le> n" and "int k \<le> m"
  shows "concat (map (\<lambda>y. map (\<lambda>x. cs ! nat (x + y * n)) [0..n - 1]) [0..int k - 1]) =
         take (k * nat n) cs"
  using assms(3)
proof (induction k)
  case 0
  then show ?case by simp
next
  case (Suc k)
  then have k: "int k \<le> m" "int k < m" by simp_all
  have u: "[0..int (Suc k) - 1] = [0..int k - 1] @ [int k]"
    using upto_rec2 [of 0 "int k"] by simp
  have kn: "nat (int k * n) = k * nat n" by (simp add: nat_mult_distrib)
  have "map (\<lambda>x. cs ! nat (x + int k * n)) [0..n - 1] =
      take (nat n) (drop (nat (int k * n)) cs)"
    by (rule row_cells [OF assms(1) _ k(2) assms(2)]) simp
  then have r: "map (\<lambda>x. cs ! nat (x + int k * n)) [0..n - 1] =
      take (nat n) (drop (k * nat n) cs)"
    by (simp only: kn)
  have "concat (map (\<lambda>y. map (\<lambda>x. cs ! nat (x + y * n)) [0..n - 1]) [0..int (Suc k) - 1]) =
      take (k * nat n) cs @ take (nat n) (drop (k * nat n) cs)"
    by (simp only: u map_append concat_append Suc.IH [OF k(1)] list.map concat.simps r
        append_Nil2)
  also have "\<dots> = take (k * nat n + nat n) cs" by (simp only: take_add)
  also have "k * nat n + nat n = Suc k * nat n" by simp
  finally show ?case .
qed

lemma cells_row_major:
  assumes "wf_grid a" and "extent a = (n, m)"
  shows "map (cellAt a) (cellsOf (fromPositionSize (0, 0) (n - 1, m - 1))) = cells a"
proof -
  from assms have n: "0 \<le> n" and m: "0 \<le> m" and len: "length (cells a) = nat (n * m)"
    by (simp_all add: wf_grid_def)
  have "map (cellAt a) (cellsOf (fromPositionSize (0, 0) (n - 1, m - 1))) =
     concat (map (\<lambda>y. map (\<lambda>x. cells a ! nat (x + y * n)) [0..n - 1]) [0..int (nat m) - 1])"
    using m
    by (simp add: cellsOf_def fromPositionSize_def vec_add_def map_concat cellAt_def toIndex_def
        assms(2) comp_def)
  also have "\<dots> = take (nat m * nat n) (cells a)"
    using m by (intro rows_cells [OF len n]) simp
  also have "\<dots> = cells a"
    using n m len by (simp add: nat_mult_distrib mult.commute)
  finally show ?thesis .
qed

lemma fillVertexArray_whole_grid:
  assumes "wf_layer l" and "m_orientation l \<noteq> Unknown"
    and "\<forall>cell \<in> set (cells (m_tiles l)). tile cell = NoTile \<or> 0 \<le> tile cell"
  shows "\<exists>vs. fillVertexArray l []
            (fromPositionSize (0, 0) (fst (m_layerSize l) - 1, snd (m_layerSize l) - 1)) = Inr vs \<and>
          length vs = 6 * nonEmptyCells l"
proof -
  obtain n m where ls: "m_layerSize l = (n, m)" by (cases "m_layerSize l")
  from assms(1) have wf: "wf_grid (m_tiles l)" and e: "extent (m_tiles l) = (n, m)"
    by (simp_all add: wf_layer_def ls)
  let ?cs = "cellsOf (fromPositionSize (0, 0) (n - 1, m - 1))"
  have v: "isValid (m_tiles l) c \<and>
           (tile (cellAt (m_tiles l) c) = NoTile \<or> 0 \<le> tile (cellAt (m_tiles l) c))"
    if "c \<in> set ?cs" for c
  proof -
    obtain x y where c: "c = (x, y)" by (cases c)
    from that have "isValid (m_tiles l) c"
      by (simp add: c mem_cellsOf fromPositionSize_def vec_add_def isValid_def e)
    moreover from this toIndex_less [OF wf] have "cellAt (m_tiles l) c \<in> set (cells (m_tiles l))"
      by (simp add: cellAt_def)
    ultimately show ?thesis using assms(3) by blast
  qed
  from fillCells_count [OF assms(2), of ?cs "[]"] v
  obtain vs where "fillCells l ?cs [] = Inr vs"
    "length vs = 6 * length (filter (\<lambda>c. tile c \<noteq> NoTile) (map (cellAt (m_tiles l)) ?cs))"
    by auto
  then show ?thesis
    by (simp add: fillVertexArray_def ls cells_row_major [OF wf e] nonEmptyCells_def)
qed

lemma cells_in_bounds_valid:
  assumes "wf_layer l"
    and "0 \<le> fst (min_pt r)" and "fst (max_pt r) \<le> fst (m_layerSize l) - 1"
    and "0 \<le> snd (min_pt r)" and "snd (max_pt r) \<le> snd (m_layerSize l) - 1"
  shows "\<forall>c \<in> set (cellsOf r). isValid (m_tiles l) c"
proof
  fix c assume c: "c \<in> set (cellsOf r)"
  obtain x y where xy: "c = (x, y)" by (cases c)
  from c assms show "isValid (m_tiles l) c"
    by (simp add: xy mem_cellsOf isValid_def wf_layer_def)
qed

text \<open>
  Claim C2 fails on the code: \<^verbatim>\<open>commitGeometry\<close> passes the rectangle
  \<^verbatim>\<open>fromPositionSize({ 0, 0 }, m_layerSize)\<close>, whose maximum is \<open>layerSize\<close>, to a loop that
  includes the maximum, so the loop leaves the grid by one column and one row and the
  in-bounds assertion fires (\<^verbatim>\<open>draw\<close> clamps to \<open>layerSize - 1\<close>). On the layer of one cell,
  which holds a tile, the loop visits four cells and fails at the second; over the
  rectangle \<open>[0, layerSize - 1]\<close> the tessellator gives the six vertices of that tile.
\<close>

theorem commitGeometry_single_cell_layer:
  "m_layerSize demo_single = (1, 1) \<and> getTile demo_single (0, 0) = Inr 0 \<and>
   nonEmptyCells demo_single = 1 \<and>
   cellsOf (fromPositionSize (0, 0) (m_layerSize demo_single)) = [(0, 0), (1, 0), (0, 1), (1, 1)] \<and>
   commitGeometry demo_single = Inl InvalidCell \<and>
   (case fillVertexArray demo_single [] (fromPositionSize (0, 0) (0, 0)) of
      Inl e \<Rightarrow> False | Inr vs \<Rightarrow> length vs = 6)"
  by code_simp

end
